theory Spec2Isabelle
  imports Main
begin

section \<open>Ledger store (src/database/models.py, src/database/db_manager.py)\<close>

text \<open>
  The three tables of the SQLite store, one record per row.  Columns that no modelled
  function reads (solution_delivery, solution_delay_hours, preferred_time, timezone and
  the timestamps of \<open>users\<close>; test_cases, constraints, examples, hints, tags and created_at
  of \<open>problems\<close>; sent_at of \<open>sent_problems\<close>) are left out.  The primary key \<open>id\<close> of each
  table is written \<open>uid\<close>, \<open>pid\<close> and \<open>sp_id\<close>.  Strings are lists of characters with code
  points below 256.
\<close>

record user =
  uid :: int
  email :: string
  preferred_language :: string
  preferred_difficulty :: string
  is_active :: bool

record problem =
  pid :: int
  title :: string
  description :: string
  difficulty :: string

record sent_problem =
  sp_id :: int
  user_id :: int
  problem_id :: int
  email_status :: string
  solution_language :: string

text \<open>
  A table is the list of its rows in insertion order together with the AUTOINCREMENT
  counter of its primary key (the largest id ever handed out).
\<close>

record database =
  users :: "user list"
  users_seq :: int
  problems :: "problem list"
  problems_seq :: int
  sent_problems :: "sent_problem list"
  sent_problems_seq :: int

definition empty_database :: database where
  "empty_database =
     \<lparr>users = [], users_seq = 0, problems = [], problems_seq = 0,
      sent_problems = [], sent_problems_seq = 0\<rparr>"

text \<open>
  Every method of \<open>DatabaseManager\<close> runs its statement inside \<open>try\<close> and returns a
  failure value (None, False, an empty result) from \<open>except Exception\<close>.  The exceptions
  that the arguments themselves bring about are modelled: a Python integer outside the
  64-bit range of an SQLite INTEGER cannot be bound to a statement (OverflowError), and
  an AUTOINCREMENT key cannot grow beyond that range.  Faults of the storage engine that
  do not depend on the arguments (a locked or unwritable file) are outside the model.
\<close>

definition sqlite_int :: "int \<Rightarrow> bool" where
  "sqlite_int i = (- (2 ^ 63) \<le> i \<and> i < 2 ^ 63)"

text \<open>
  The key that AUTOINCREMENT gives a new row: one more than the largest key the table
  holds or has ever held.
\<close>

definition next_rowid :: "int \<Rightarrow> int list \<Rightarrow> int" where
  "next_rowid seq ids = fold max ids seq + 1"

definition get_user_by_email :: "database \<Rightarrow> string \<Rightarrow> user option" where
  "get_user_by_email db em = find (\<lambda>u. email u = em) (users db)"

definition get_user_by_id :: "database \<Rightarrow> int \<Rightarrow> user option" where
  "get_user_by_id db i = (if sqlite_int i then find (\<lambda>u. uid u = i) (users db) else None)"

text \<open>
  \<open>DatabaseManager.add_user\<close>: the INSERT violates \<open>email TEXT UNIQUE\<close> when a row with
  the address exists; the IntegrityError is caught and None returned.
\<close>

definition db_add_user :: "database \<Rightarrow> string \<Rightarrow> string \<Rightarrow> string \<Rightarrow> user option \<times> database" where
  "db_add_user db em lang diff =
     (let user_id = next_rowid (users_seq db) (map uid (users db))
      in if em \<in> set (map email (users db)) \<or> \<not> sqlite_int user_id then (None, db)
         else
           let row = \<lparr>uid = user_id, email = em, preferred_language = lang,
                      preferred_difficulty = diff, is_active = True\<rparr>;
               db' = db\<lparr>users := users db @ [row], users_seq := user_id\<rparr>
           in (get_user_by_id db' user_id, db'))"

text \<open>Python truthiness of an \<open>Optional[str]\<close> argument: None and the empty string are false.\<close>

fun truthy :: "string option \<Rightarrow> bool" where
  "truthy None = False"
| "truthy (Some s) = (s \<noteq> [])"

fun or_else :: "string option \<Rightarrow> string \<Rightarrow> string" where
  "or_else None d = d"
| "or_else (Some s) d = (if s = [] then d else s)"

text \<open>
  \<open>DatabaseManager.update_user_preferences\<close>: the UPDATE sets only the columns whose
  argument is truthy; the result is \<open>cursor.rowcount > 0\<close>.
\<close>

definition db_update_user_preferences ::
    "database \<Rightarrow> string \<Rightarrow> string option \<Rightarrow> string option \<Rightarrow> bool \<times> database" where
  "db_update_user_preferences db em lang diff =
     (if truthy lang \<or> truthy diff then
        (em \<in> set (map email (users db)),
         db\<lparr>users :=
              map (\<lambda>u. if email u = em
                        then u\<lparr>preferred_language := or_else lang (preferred_language u),
                               preferred_difficulty := or_else diff (preferred_difficulty u)\<rparr>
                        else u) (users db)\<rparr>)
      else (False, db))"

definition deactivate_user :: "database \<Rightarrow> string \<Rightarrow> bool \<times> database" where
  "deactivate_user db em =
     (em \<in> set (map email (users db)),
      db\<lparr>users := map (\<lambda>u. if email u = em then u\<lparr>is_active := False\<rparr> else u) (users db)\<rparr>)"

definition get_active_users :: "database \<Rightarrow> user list" where
  "get_active_users db = filter is_active (users db)"

definition get_problem_by_id :: "database \<Rightarrow> int \<Rightarrow> problem option" where
  "get_problem_by_id db i = (if sqlite_int i then find (\<lambda>p. pid p = i) (problems db) else None)"

text \<open>\<open>DatabaseManager.add_problem\<close>: the id of the argument is not inserted; the row gets a fresh one.\<close>

definition add_problem :: "database \<Rightarrow> problem \<Rightarrow> problem option \<times> database" where
  "add_problem db p =
     (let problem_id = next_rowid (problems_seq db) (map pid (problems db))
      in if \<not> sqlite_int problem_id then (None, db)
         else
           let row = p\<lparr>pid := problem_id\<rparr>;
               db' = db\<lparr>problems := problems db @ [row], problems_seq := problem_id\<rparr>
           in (get_problem_by_id db' problem_id, db'))"

text \<open>
  \<open>DatabaseManager.get_unsent_problem_for_user\<close>.  The rows that satisfy the WHERE clause
  are \<open>unsent_candidates\<close>; \<open>ORDER BY RANDOM() LIMIT 1\<close> returns one of them, chosen by the
  random number \<open>rnd\<close> that the caller supplies.  A user id that cannot be bound raises, and
  the handler returns None.
\<close>

definition sent_ids :: "database \<Rightarrow> int \<Rightarrow> int list" where
  "sent_ids db u = map problem_id (filter (\<lambda>sp. user_id sp = u) (sent_problems db))"

definition unsent_candidates :: "database \<Rightarrow> int \<Rightarrow> string \<Rightarrow> problem list" where
  "unsent_candidates db u diff =
     filter (\<lambda>p. difficulty p = diff \<and> pid p \<notin> set (sent_ids db u)) (problems db)"

definition get_unsent_problem_for_user :: "database \<Rightarrow> int \<Rightarrow> string \<Rightarrow> nat \<Rightarrow> problem option" where
  "get_unsent_problem_for_user db u diff rnd =
     (if \<not> sqlite_int u then None
      else case unsent_candidates db u diff of
             [] \<Rightarrow> None
           | c # cs \<Rightarrow> Some ((c # cs) ! (rnd mod length (c # cs))))"

text \<open>
  \<open>DatabaseManager.mark_problem_sent\<close>: \<open>INSERT OR REPLACE\<close> under \<open>UNIQUE(user_id, problem_id)\<close>
  deletes the rows that hold the pair and inserts the new row under a fresh id; the
  result is True.  When the statement raises, nothing is written and the result is False.
\<close>

definition insert_accepted :: "database \<Rightarrow> int \<Rightarrow> int \<Rightarrow> bool" where
  "insert_accepted db u p =
     (sqlite_int u \<and> sqlite_int p \<and>
      sqlite_int (next_rowid (sent_problems_seq db) (map sp_id (sent_problems db))))"

definition mark_problem_sent ::
    "database \<Rightarrow> int \<Rightarrow> int \<Rightarrow> string \<Rightarrow> string \<Rightarrow> bool \<times> database" where
  "mark_problem_sent db u p lang status =
     (if insert_accepted db u p then
        (let row_id = next_rowid (sent_problems_seq db) (map sp_id (sent_problems db))
         in (True,
             db\<lparr>sent_problems :=
                  filter (\<lambda>sp. \<not> (user_id sp = u \<and> problem_id sp = p)) (sent_problems db)
                  @ [\<lparr>sp_id = row_id, user_id = u, problem_id = p,
                      email_status = status, solution_language = lang\<rparr>],
                sent_problems_seq := row_id\<rparr>))
      else (False, db))"

text \<open>
  \<open>DatabaseManager.get_user_stats\<close>: both queries keep only rows with
  \<open>email_status = 'sent'\<close>; the second joins them with \<open>problems\<close> and groups by difficulty,
  so a difficulty without a row is no key of the dictionary.  The handler returns the
  count 0 and the empty dictionary.
\<close>

record user_stats =
  total_sent :: nat
  by_difficulty :: "string \<Rightarrow> nat option"

definition sent_rows :: "database \<Rightarrow> int \<Rightarrow> sent_problem list" where
  "sent_rows db u = filter (\<lambda>sp. user_id sp = u \<and> email_status sp = ''sent'') (sent_problems db)"

definition joined_difficulties :: "database \<Rightarrow> int \<Rightarrow> string list" where
  "joined_difficulties db u =
     concat (map (\<lambda>sp. map difficulty (filter (\<lambda>p. pid p = problem_id sp) (problems db)))
                 (sent_rows db u))"

definition db_get_user_stats :: "database \<Rightarrow> int \<Rightarrow> user_stats" where
  "db_get_user_stats db u =
     (if \<not> sqlite_int u then \<lparr>total_sent = 0, by_difficulty = (\<lambda>d. None)\<rparr>
      else
        \<lparr>total_sent = length (sent_rows db u),
         by_difficulty = (\<lambda>d. let n = count_list (joined_difficulties db u) d
                               in if n = 0 then None else Some n)\<rparr>)"

section \<open>Configuration constants (src/config.py)\<close>

definition SUPPORTED_LANGUAGES :: "string list" where
  "SUPPORTED_LANGUAGES = [''python'', ''java'', ''cpp'', ''javascript'', ''go'', ''rust'']"

definition DIFFICULTY_LEVELS :: "string list" where
  "DIFFICULTY_LEVELS = [''easy'', ''medium'', ''hard'']"

text \<open>Python's \<open>str.lower\<close> on code points below 256: A..Z and the Latin-1 capitals move up by 32.\<close>

definition lower_char :: "char \<Rightarrow> char" where
  "lower_char c =
     (let n = (of_char c :: nat)
      in if (65 \<le> n \<and> n \<le> 90) \<or> (192 \<le> n \<and> n \<le> 222 \<and> n \<noteq> 215)
         then char_of (n + 32) else c)"

definition lower :: "string \<Rightarrow> string" where
  "lower s = map lower_char s"

section \<open>Collaborators of the coordinator\<close>

text \<open>
  What a call raises is represented by its message (\<open>str(e)\<close>) and by whether it is an
  instance of \<open>Exception\<close>, which the handlers \<open>except Exception\<close> of the program catch, or
  lies outside that class (SystemExit, KeyboardInterrupt), which they let pass.  A call
  that may raise returns \<open>Inl\<close> of what it raises or \<open>Inr\<close> of its value.
\<close>

datatype exn = Exception string | BaseException string

record solution =
  sol_problem_id :: int
  sol_language :: string
  solution_code :: string
  sol_explanation :: string
  sol_time_complexity :: string
  sol_space_complexity :: string
  humor_comments :: string

text \<open>
  The coordinator holds its agents as attributes and only calls their methods.  The record
  gives each method it calls as a function of the arguments passed; \<open>sql_random\<close> is the
  random number behind \<open>ORDER BY RANDOM()\<close> for a query with the given arguments.  Every run
  of an operation may be given another record, so nothing is assumed about the agents
  answering alike on different occasions.
\<close>

record agents =
  sql_random :: "int \<Rightarrow> string \<Rightarrow> nat"
  get_problem_by_difficulty :: "string \<Rightarrow> exn + problem option"
  get_all_problems :: "exn + problem list"
  generate_solution :: "problem \<Rightarrow> string \<Rightarrow> exn + solution option"
  add_humor_to_solution :: "solution \<Rightarrow> exn + solution"
  send_daily_problem :: "user \<Rightarrow> problem \<Rightarrow> solution \<Rightarrow> exn + bool"
  send_welcome_email :: "user \<Rightarrow> exn + bool"
  send_unsubscribe_confirmation :: "string \<Rightarrow> exn + bool"

text \<open>
  \<open>MailAgent.send_daily_problem\<close> (src/agents/mail_agent.py): False when the SMTP client
  was not initialised; otherwise the content is built and sent inside a try block whose
  handler \<open>except Exception\<close> returns False.  \<open>smtp_send\<close> stands for the body of that
  block: it completes or raises.
\<close>

record mail_agent =
  smtp :: bool
  smtp_send :: "user \<Rightarrow> problem \<Rightarrow> solution \<Rightarrow> exn + unit"

definition MailAgent_send_daily_problem ::
    "mail_agent \<Rightarrow> user \<Rightarrow> problem \<Rightarrow> solution \<Rightarrow> exn + bool" where
  "MailAgent_send_daily_problem m u p s =
     (if \<not> smtp m then Inr False
      else case smtp_send m u p s of
             Inl (Exception e) \<Rightarrow> Inr False
           | Inl (BaseException b) \<Rightarrow> Inl (BaseException b)
           | Inr _ \<Rightarrow> Inr True)"

text \<open>
  \<open>FetchAgent.get_problem_by_difficulty\<close> (src/agents/fetch_agent.py) over the list that
  \<open>_load_problems\<close> returns (the entries of the problems file, each with its title,
  description and difficulty; empty when the file is missing or unreadable): the first
  entry whose difficulty equals the requested one, both in lower case.  The entry carries
  no id.
\<close>

definition FetchAgent_get_problem_by_difficulty ::
    "problem list \<Rightarrow> string \<Rightarrow> exn + problem option" where
  "FetchAgent_get_problem_by_difficulty problems_file diff =
     (case filter (\<lambda>p. lower (difficulty p) = lower diff) problems_file of
        [] \<Rightarrow> Inr None
      | problem_data # rest \<Rightarrow> Inr (Some problem_data))"

section \<open>Delivery coordinator (src/coordinator.py)\<close>

text \<open>
  \<open>_get_and_store_new_problem\<close>: an \<open>Exception\<close> of the fetch agent is caught and None
  returned.  The result is the value returned or what is raised, with the store as it
  then is.
\<close>

definition get_and_store_new_problem ::
    "agents \<Rightarrow> string \<Rightarrow> database \<Rightarrow> (exn + problem option) \<times> database" where
  "get_and_store_new_problem ag diff db =
     (case get_problem_by_difficulty ag diff of
        Inl (Exception e) \<Rightarrow> (Inr None, db)
      | Inl (BaseException b) \<Rightarrow> (Inl (BaseException b), db)
      | Inr None \<Rightarrow> (Inr None, db)
      | Inr (Some p) \<Rightarrow> (Inr (fst (add_problem db p)), snd (add_problem db p)))"

text \<open>
  Steps 2 to 5 of \<open>_process_user_email\<close>, entered with the problem chosen in step 1.  The
  result of \<open>mark_problem_sent\<close> is not looked at.
\<close>

definition solve_and_send ::
    "agents \<Rightarrow> user \<Rightarrow> problem \<Rightarrow> database \<Rightarrow> (exn + bool) \<times> database" where
  "solve_and_send ag u p db =
     (case generate_solution ag p (preferred_language u) of
        Inl e \<Rightarrow> (Inl e, db)
      | Inr None \<Rightarrow> (Inr False, db)
      | Inr (Some s) \<Rightarrow>
         (case add_humor_to_solution ag s of
            Inl e \<Rightarrow> (Inl e, db)
          | Inr s' \<Rightarrow>
             (case send_daily_problem ag u p s' of
                Inl e \<Rightarrow> (Inl e, db)
              | Inr True \<Rightarrow>
                  (Inr True, snd (mark_problem_sent db (uid u) (pid p) (preferred_language u) ''sent''))
              | Inr False \<Rightarrow>
                  (Inr False, snd (mark_problem_sent db (uid u) (pid p) (preferred_language u) ''failed'')))))"

text \<open>
  Step 1 of \<open>_process_user_email\<close>: an unsent problem of the store or, when there is none,
  one fetched and stored.
\<close>

definition select_problem ::
    "agents \<Rightarrow> user \<Rightarrow> database \<Rightarrow> (exn + problem option) \<times> database" where
  "select_problem ag u db =
     (case get_unsent_problem_for_user db (uid u) (preferred_difficulty u)
             (sql_random ag (uid u) (preferred_difficulty u)) of
        Some p \<Rightarrow> (Inr (Some p), db)
      | None \<Rightarrow> get_and_store_new_problem ag (preferred_difficulty u) db)"

text \<open>The try block of \<open>_process_user_email\<close>.\<close>

definition process_user_email_try ::
    "agents \<Rightarrow> user \<Rightarrow> database \<Rightarrow> (exn + bool) \<times> database" where
  "process_user_email_try ag u db =
     (case select_problem ag u db of
        (Inl e, db') \<Rightarrow> (Inl e, db')
      | (Inr None, db') \<Rightarrow> (Inr False, db')
      | (Inr (Some p), db') \<Rightarrow> solve_and_send ag u p db')"

text \<open>
  \<open>_process_user_email\<close>: the handler \<open>except Exception\<close> logs and returns False; what lies
  outside \<open>Exception\<close> leaves the method.
\<close>

definition process_user_email ::
    "agents \<Rightarrow> user \<Rightarrow> database \<Rightarrow> (exn + bool) \<times> database" where
  "process_user_email ag u db =
     (case process_user_email_try ag u db of
        (Inl (Exception e), db') \<Rightarrow> (Inr False, db')
      | (Inl (BaseException b), db') \<Rightarrow> (Inl (BaseException b), db')
      | (Inr b, db') \<Rightarrow> (Inr b, db'))"

text \<open>
  The dictionary returned by \<open>process_daily_emails\<close>, without its two clock readings
  (start_time, end_time).
\<close>

record batch_result =
  total_users :: nat
  emails_sent :: nat
  emails_failed :: nat
  errors :: "string list"

text \<open>
  The loop \<open>for user in active_users\<close> with its try block and handler.  The result is what
  left the loop, if anything did, the dictionary as filled so far, and the store.
\<close>

fun process_users ::
    "agents \<Rightarrow> user list \<Rightarrow> batch_result \<Rightarrow> database \<Rightarrow> exn option \<times> batch_result \<times> database" where
  "process_users ag [] res db = (None, res, db)"
| "process_users ag (u # us) res db =
     (case process_user_email ag u db of
        (Inr True, db') \<Rightarrow>
          process_users ag us (res\<lparr>emails_sent := emails_sent res + 1\<rparr>) db'
      | (Inr False, db') \<Rightarrow>
          process_users ag us (res\<lparr>emails_failed := emails_failed res + 1\<rparr>) db'
      | (Inl (Exception e), db') \<Rightarrow>
          process_users ag us
            (res\<lparr>emails_failed := emails_failed res + 1,
                  errors := errors res @ [''Error processing user '' @ email u @ '': '' @ e]\<rparr>) db'
      | (Inl (BaseException b), db') \<Rightarrow> (Some (BaseException b), res, db'))"

text \<open>
  \<open>process_daily_emails\<close>: the outer handler \<open>except Exception\<close> appends a message and
  returns the dictionary.
\<close>

definition process_daily_emails :: "agents \<Rightarrow> database \<Rightarrow> (exn + batch_result) \<times> database" where
  "process_daily_emails ag db =
     (let active_users = get_active_users db;
          results = \<lparr>total_users = length active_users, emails_sent = 0, emails_failed = 0,
                     errors = []\<rparr>
      in if active_users = [] then (Inr results, db)
         else
           case process_users ag active_users results db of
             (None, res, db') \<Rightarrow> (Inr res, db')
           | (Some (Exception e), res, db') \<Rightarrow>
               (Inr (res\<lparr>errors := errors res
                                    @ [''Critical error in daily email processing: '' @ e]\<rparr>), db')
           | (Some (BaseException b), res, db') \<Rightarrow> (Inl (BaseException b), db'))"

text \<open>
  \<open>LeetcodeEmailCoordinator.add_user\<close>.  An \<open>Exception\<close> of the welcome mail leaves through
  the handler of the method, which returns False.
\<close>

definition send_welcome :: "agents \<Rightarrow> user \<Rightarrow> database \<Rightarrow> (exn + bool) \<times> database" where
  "send_welcome ag u db =
     (case send_welcome_email ag u of
        Inl (Exception e) \<Rightarrow> (Inr False, db)
      | Inl (BaseException b) \<Rightarrow> (Inl (BaseException b), db)
      | Inr _ \<Rightarrow> (Inr True, db))"

definition add_user ::
    "agents \<Rightarrow> database \<Rightarrow> string \<Rightarrow> string \<Rightarrow> string \<Rightarrow> (exn + bool) \<times> database" where
  "add_user ag db em lang diff =
     (if em = [] \<or> CHR ''@'' \<notin> set em then (Inr False, db)
      else if lower lang \<notin> set SUPPORTED_LANGUAGES then (Inr False, db)
      else if lower diff \<notin> set DIFFICULTY_LEVELS then (Inr False, db)
      else
        case get_user_by_email db em of
          Some existing_user \<Rightarrow>
            (if is_active existing_user then (Inr False, db)
             else
               case db_update_user_preferences db em (Some lang) (Some diff) of
                 (True, db1) \<Rightarrow>
                   (let db2 = snd (deactivate_user db1 em)
                    in case get_user_by_email db2 em of
                         Some u \<Rightarrow> send_welcome ag u db2
                       | None \<Rightarrow> (Inr True, db2))
               | (False, db1) \<Rightarrow> (Inr False, db1))
        | None \<Rightarrow>
            (case db_add_user db em lang diff of
               (Some u, db1) \<Rightarrow> send_welcome ag u db1
             | (None, db1) \<Rightarrow> (Inr False, db1)))"

definition remove_user :: "agents \<Rightarrow> database \<Rightarrow> string \<Rightarrow> (exn + bool) \<times> database" where
  "remove_user ag db em =
     (case get_user_by_email db em of
        None \<Rightarrow> (Inr False, db)
      | Some u \<Rightarrow>
         (if \<not> is_active u then (Inr True, db)
          else
            case deactivate_user db em of
              (True, db1) \<Rightarrow>
                (case send_unsubscribe_confirmation ag em of
                   Inl (Exception e) \<Rightarrow> (Inr False, db1)
                 | Inl (BaseException b) \<Rightarrow> (Inl (BaseException b), db1)
                 | Inr _ \<Rightarrow> (Inr True, db1))
            | (False, db1) \<Rightarrow> (Inr False, db1)))"

definition update_user_preferences ::
    "database \<Rightarrow> string \<Rightarrow> string option \<Rightarrow> string option \<Rightarrow> bool \<times> database" where
  "update_user_preferences db em lang diff =
     (if truthy lang \<and> lower (or_else lang []) \<notin> set SUPPORTED_LANGUAGES then (False, db)
      else if truthy diff \<and> lower (or_else diff []) \<notin> set DIFFICULTY_LEVELS then (False, db)
      else
        case get_user_by_email db em of
          None \<Rightarrow> (False, db)
        | Some u \<Rightarrow> db_update_user_preferences db em lang diff)"

text \<open>\<open>initialize_sample_data\<close>: every problem of the fetch agent is added to the store.\<close>

fun add_problems :: "problem list \<Rightarrow> nat \<Rightarrow> database \<Rightarrow> nat \<times> database" where
  "add_problems [] added_count db = (added_count, db)"
| "add_problems (p # ps) added_count db =
     (case add_problem db p of
        (Some stored, db') \<Rightarrow> add_problems ps (added_count + 1) db'
      | (None, db') \<Rightarrow> add_problems ps added_count db')"

definition initialize_sample_data :: "agents \<Rightarrow> database \<Rightarrow> (exn + bool) \<times> database" where
  "initialize_sample_data ag db =
     (case get_all_problems ag of
        Inl (Exception e) \<Rightarrow> (Inr False, db)
      | Inl (BaseException b) \<Rightarrow> (Inl (BaseException b), db)
      | Inr ps \<Rightarrow>
         (if ps = [] then (Inr False, db)
          else (Inr (0 < fst (add_problems ps 0 db)), snd (add_problems ps 0 db))))"

text \<open>
  Every operation that writes the store: the mutating methods of \<open>DatabaseManager\<close> and the
  methods of the coordinator built on them.  A history of the store is a list of operations,
  each run with the agents of its occasion; an operation that is left by what it raises
  leaves the store as it is at that moment.
\<close>

datatype ledger_op =
    Db_add_user string string string
  | Db_update_user_preferences string "string option" "string option"
  | Db_deactivate_user string
  | Db_add_problem problem
  | Db_mark_problem_sent int int string string
  | Add_user string string string
  | Remove_user string
  | Update_user_preferences string "string option" "string option"
  | Initialize_sample_data
  | Process_daily_emails

fun apply_op :: "agents \<Rightarrow> ledger_op \<Rightarrow> database \<Rightarrow> database" where
  "apply_op ag (Db_add_user em lang diff) db = snd (db_add_user db em lang diff)"
| "apply_op ag (Db_update_user_preferences em lang diff) db =
     snd (db_update_user_preferences db em lang diff)"
| "apply_op ag (Db_deactivate_user em) db = snd (deactivate_user db em)"
| "apply_op ag (Db_add_problem p) db = snd (add_problem db p)"
| "apply_op ag (Db_mark_problem_sent u p lang status) db =
     snd (mark_problem_sent db u p lang status)"
| "apply_op ag (Add_user em lang diff) db = snd (add_user ag db em lang diff)"
| "apply_op ag (Remove_user em) db = snd (remove_user ag db em)"
| "apply_op ag (Update_user_preferences em lang diff) db =
     snd (update_user_preferences db em lang diff)"
| "apply_op ag Initialize_sample_data db = snd (initialize_sample_data ag db)"
| "apply_op ag Process_daily_emails db = snd (process_daily_emails ag db)"

fun run_ops :: "(agents \<times> ledger_op) list \<Rightarrow> database \<Rightarrow> database" where
  "run_ops [] db = db"
| "run_ops ((ag, op) # ops) db = run_ops ops (apply_op ag op db)"

text \<open>The deduplication contract: no two rows of \<open>sent_problems\<close> hold the same pair.\<close>

definition ledger_pairs :: "database \<Rightarrow> (int \<times> int) list" where
  "ledger_pairs db = map (\<lambda>sp. (user_id sp, problem_id sp)) (sent_problems db)"

definition one_record_per_pair :: "database \<Rightarrow> bool" where
  "one_record_per_pair db = distinct (ledger_pairs db)"

definition records_for :: "database \<Rightarrow> int \<Rightarrow> int \<Rightarrow> sent_problem list" where
  "records_for db u p = filter (\<lambda>sp. user_id sp = u \<and> problem_id sp = p) (sent_problems db)"

section \<open>Response parser (src/agents/solve_agent.py)\<close>

subsection \<open>String methods\<close>

text \<open>
  \<open>str.isspace\<close> on code points below 256, which is also the class \<open>\s\<close> of the \<open>re\<close>
  module for text patterns: tab to carriage return, the four separators 28 to 31, space,
  next line (133) and no-break space (160).
\<close>

definition isspace :: "char \<Rightarrow> bool" where
  "isspace c = ((of_char c :: nat) \<in> {9, 10, 11, 12, 13, 28, 29, 30, 31, 32, 133, 160})"

definition strip :: "string \<Rightarrow> string" where
  "strip s = rev (dropWhile isspace (rev (dropWhile isspace s)))"

definition startswith :: "string \<Rightarrow> string \<Rightarrow> bool" where
  "startswith s p = (take (length p) s = p)"

text \<open>\<open>content.split('\n')\<close>: the pieces between the newlines, at least one.\<close>

fun split_lines :: "string \<Rightarrow> string list" where
  "split_lines [] = [[]]"
| "split_lines (c # cs) =
     (if c = CHR ''\<newline>'' then [] # split_lines cs
      else case split_lines cs of
             [] \<Rightarrow> [[c]]
           | l # ls \<Rightarrow> (c # l) # ls)"

text \<open>\<open>'\n'.join(lines)\<close>.\<close>

fun join_lines :: "string list \<Rightarrow> string" where
  "join_lines [] = []"
| "join_lines [l] = l"
| "join_lines (l # m # ls) = l @ CHR ''\<newline>'' # join_lines (m # ls)"

subsection \<open>The two patterns of \<open>_extract_code_block\<close>\<close>

text \<open>
  Both patterns have the shape \<open>opener \s* \n (.*?) \n```\<close> under DOTALL, where the opener is
  three backquotes followed by the language (first pattern, under IGNORECASE) or three
  backquotes alone (second pattern).  The language is put into the pattern as it is; it
  is read here as literal text, which is what the pattern means for the languages that
  \<open>generate_solution\<close> passes on, all made of letters.

  \<open>find_sub n s\<close> is the text of \<open>s\<close> before the first occurrence of \<open>n\<close>: the lazy group
  \<open>(.*?)\<close> followed by the literal \<open>n\<close>.
\<close>

fun find_sub :: "string \<Rightarrow> string \<Rightarrow> string option" where
  "find_sub n [] = (if n = [] then Some [] else None)"
| "find_sub n (c # cs) =
     (if take (length n) (c # cs) = n then Some []
      else map_option (\<lambda>g. c # g) (find_sub n cs))"

text \<open>
  \<open>\s*\n\<close> is greedy: the run of whitespace is taken whole and then given back character
  by character until a newline follows.  \<open>newline_splits s\<close> lists what follows each
  newline of the leading run of whitespace of \<open>s\<close>, first newline first; the matcher tries
  them last first.
\<close>

fun newline_splits :: "string \<Rightarrow> string list" where
  "newline_splits [] = []"
| "newline_splits (c # cs) =
     (if isspace c
      then (if c = CHR ''\<newline>'' then [cs] else []) @ newline_splits cs
      else [])"

fun first_group :: "string list \<Rightarrow> string option" where
  "first_group [] = None"
| "first_group (t # ts) =
     (case find_sub ''\<newline>```'' t of
        Some g \<Rightarrow> Some g
      | None \<Rightarrow> first_group ts)"

text \<open>A match of the pattern that begins at the head of \<open>s\<close>: its group 1, if there is one.\<close>

definition match_here :: "bool \<Rightarrow> string \<Rightarrow> string \<Rightarrow> string option" where
  "match_here ignorecase opener s =
     (if (if ignorecase then lower (take (length opener) s) = lower opener
          else take (length opener) s = opener)
      then first_group (rev (newline_splits (drop (length opener) s)))
      else None)"

text \<open>\<open>re.search\<close>: the match at the leftmost position that has one.\<close>

fun search :: "bool \<Rightarrow> string \<Rightarrow> string \<Rightarrow> string option" where
  "search ignorecase opener [] = match_here ignorecase opener []"
| "search ignorecase opener (c # cs) =
     (case match_here ignorecase opener (c # cs) of
        Some g \<Rightarrow> Some g
      | None \<Rightarrow> search ignorecase opener cs)"

definition extract_code_block :: "string \<Rightarrow> string \<Rightarrow> string" where
  "extract_code_block content language =
     (case search True (''```'' @ language) content of
        Some g \<Rightarrow> strip g
      | None \<Rightarrow>
         (case search False ''```'' content of
            Some g \<Rightarrow> strip g
          | None \<Rightarrow> []))"

subsection \<open>\<open>_parse_solution_response\<close>\<close>

record sections =
  code :: string
  explanation :: string
  time_complexity :: string
  space_complexity :: string
  approach :: string

datatype section_name = Code | Explanation | Time_complexity | Space_complexity | Approach

definition empty_sections :: sections where
  "empty_sections =
     \<lparr>code = [], explanation = [], time_complexity = [], space_complexity = [], approach = []\<rparr>"

text \<open>
  The body of the loop over the lines; the state is \<open>result\<close>, \<open>current_section\<close> and
  \<open>current_content\<close>.
\<close>

definition parse_line ::
    "string \<Rightarrow> sections \<times> section_name option \<times> string list \<Rightarrow> string
     \<Rightarrow> sections \<times> section_name option \<times> string list" where
  "parse_line language st line =
     (case st of (res, current_section, current_content) \<Rightarrow>
        let line_lower = strip (lower line) in
        if startswith line_lower ''solution:'' then (res, Some Code, [])
        else if startswith line_lower ''explanation:'' then
          ((if current_section = Some Code
            then res\<lparr>code := extract_code_block (join_lines current_content) language\<rparr>
            else res),
           Some Explanation, [])
        else if startswith line_lower ''time complexity:'' then
          ((if current_section = Some Explanation
            then res\<lparr>explanation := strip (join_lines current_content)\<rparr>
            else res),
           Some Time_complexity, [])
        else if startswith line_lower ''space complexity:'' then
          ((if current_section = Some Time_complexity
            then res\<lparr>time_complexity := strip (join_lines current_content)\<rparr>
            else res),
           Some Space_complexity, [])
        else if startswith line_lower ''approach:'' then
          ((if current_section = Some Space_complexity
            then res\<lparr>space_complexity := strip (join_lines current_content)\<rparr>
            else res),
           Some Approach, [])
        else
          (res, current_section,
           if current_section \<noteq> None then current_content @ [line] else current_content))"

fun parse_lines ::
    "string \<Rightarrow> string list \<Rightarrow> sections \<times> section_name option \<times> string list
     \<Rightarrow> sections \<times> section_name option \<times> string list" where
  "parse_lines language [] st = st"
| "parse_lines language (line # lines) st = parse_lines language lines (parse_line language st line)"

text \<open>After the loop: the last section is stored.\<close>

fun last_section ::
    "string \<Rightarrow> sections \<times> section_name option \<times> string list \<Rightarrow> sections" where
  "last_section language (res, Some Code, cc) =
     res\<lparr>code := extract_code_block (join_lines cc) language\<rparr>"
| "last_section language (res, Some Explanation, cc) = res\<lparr>explanation := strip (join_lines cc)\<rparr>"
| "last_section language (res, Some Time_complexity, cc) =
     res\<lparr>time_complexity := strip (join_lines cc)\<rparr>"
| "last_section language (res, Some Space_complexity, cc) =
     res\<lparr>space_complexity := strip (join_lines cc)\<rparr>"
| "last_section language (res, Some Approach, cc) = res\<lparr>approach := strip (join_lines cc)\<rparr>"
| "last_section language (res, None, cc) = res"

text \<open>
  \<open>_parse_solution_response\<close>.  Nothing in its try block raises on a string, so the
  handler, which would set the same two fields from the whole content, is not entered.
\<close>

definition parse_solution_response :: "string \<Rightarrow> string \<Rightarrow> sections" where
  "parse_solution_response content language =
     (let res = last_section language
                  (parse_lines language (split_lines content) (empty_sections, None, []));
          res1 = (if code res = [] then res\<lparr>code := extract_code_block content language\<rparr> else res);
          res2 = (if explanation res1 = [] then res1\<lparr>explanation := strip content\<rparr> else res1)
      in res2)"

text \<open>A line that the loop takes for a section header.\<close>

definition is_header :: "string \<Rightarrow> bool" where
  "is_header line =
     (let line_lower = strip (lower line)
      in startswith line_lower ''solution:'' \<or> startswith line_lower ''explanation:'' \<or>
         startswith line_lower ''time complexity:'' \<or> startswith line_lower ''space complexity:'' \<or>
         startswith line_lower ''approach:'')"

section \<open>Recurring scheduler (src/scheduler/daily_scheduler.py)\<close>

text \<open>
  The dictionary that \<open>_run_daily_job\<close> returns: the keys of the batch result together with
  \<open>job_status\<close> and, in the failure case only, \<open>error\<close>.  The clock readings
  (job_execution_time, job_start_time, job_end_time) are left out.
\<close>

record job_result = batch_result +
  job_status :: string
  error :: "string option"

text \<open>
  The fields of \<open>DailyScheduler\<close>, and of the APScheduler object it owns whether the job is
  in its job store and whether it has been started.
\<close>

record scheduler =
  is_running :: bool
  last_run_result :: "job_result option"
  job_registered :: bool
  aps_started :: bool

definition new_scheduler :: scheduler where
  "new_scheduler =
     \<lparr>is_running = False, last_run_result = None, job_registered = False, aps_started = False\<rparr>"

text \<open>
  \<open>_run_daily_job\<close>.  The job function acts on a world \<open>'w\<close> (for the coordinator, the store)
  and returns its dictionary or raises.  The handler is \<open>except Exception\<close>: what lies
  outside \<open>Exception\<close> leaves the method, and nothing is stored.
\<close>

definition run_daily_job ::
    "('w \<Rightarrow> (exn + batch_result) \<times> 'w) \<Rightarrow> scheduler \<Rightarrow> 'w \<Rightarrow> (exn + job_result) \<times> scheduler \<times> 'w" where
  "run_daily_job job_function sch w =
     (case job_function w of
        (Inr result, w') \<Rightarrow>
          (let result' = \<lparr>total_users = total_users result, emails_sent = emails_sent result,
                          emails_failed = emails_failed result, errors = errors result,
                          job_status = ''completed'', error = None\<rparr>
           in (Inr result', sch\<lparr>last_run_result := Some result'\<rparr>, w'))
      | (Inl (Exception e), w') \<Rightarrow>
          (let error_result = \<lparr>total_users = 0, emails_sent = 0, emails_failed = 0, errors = [e],
                               job_status = ''failed'', error = Some e\<rparr>
           in (Inr error_result, sch\<lparr>last_run_result := Some error_result\<rparr>, w'))
      | (Inl (BaseException b), w') \<Rightarrow> (Inl (BaseException b), sch, w'))"

definition run_now ::
    "('w \<Rightarrow> (exn + batch_result) \<times> 'w) \<Rightarrow> scheduler \<Rightarrow> 'w \<Rightarrow> (exn + job_result) \<times> scheduler \<times> 'w" where
  "run_now job_function sch w = run_daily_job job_function sch w"

section \<open>Configuration check and start-up (src/config.py, main.py)\<close>

record config =
  GROQ_API_KEY :: string
  EMAIL_ADDRESS :: string
  EMAIL_PASSWORD :: string
  SCHEDULER_HOUR :: int
  SCHEDULER_MINUTE :: int
  SCHEDULER_TIMEZONE :: string

text \<open>
  \<open>Config.validate_config\<close>: the result and the lines printed (without their leading
  pictograph).  A field is missing when it is the empty string.
\<close>

definition validate_config :: "config \<Rightarrow> bool \<times> string list" where
  "validate_config cfg =
     (let required_fields = [GROQ_API_KEY cfg, EMAIL_ADDRESS cfg, EMAIL_PASSWORD cfg];
          missing_fields = filter (\<lambda>field. field = []) required_fields
      in if missing_fields \<noteq> [] then
           (False,
            [''Missing required configuration:'']
            @ (if GROQ_API_KEY cfg = [] then [''  - GROQ_API_KEY''] else [])
            @ (if EMAIL_ADDRESS cfg = [] then [''  - EMAIL_ADDRESS''] else [])
            @ (if EMAIL_PASSWORD cfg = [] then [''  - EMAIL_PASSWORD''] else []))
         else (True, [''Configuration validated successfully!'']))"

text \<open>
  What a run of the program does, in order.  Of the console output only the lines of the
  configuration check are kept.
\<close>

datatype event =
    Printed string
  | Coordinator_created
  | Health_checked
  | Job_registered int int string
  | Scheduler_started
  | Slept
  | Scheduler_stopped
  | Batch_run

text \<open>
  The APScheduler library as \<open>DailyScheduler.start\<close> uses it: \<open>add_job\<close> with a cron trigger
  for hour, minute and timezone, and \<open>start\<close>; each completes (None) or raises.
\<close>

record apscheduler =
  add_job :: "int \<Rightarrow> int \<Rightarrow> string \<Rightarrow> exn option"
  start_background :: "exn option"

text \<open>\<open>DailyScheduler.start\<close>: an \<open>Exception\<close> is caught and False returned.\<close>

definition start ::
    "apscheduler \<Rightarrow> config \<Rightarrow> scheduler \<Rightarrow> (exn + bool) \<times> scheduler \<times> event list" where
  "start lib cfg sch =
     (if is_running sch then (Inr True, sch, [])
      else
        case add_job lib (SCHEDULER_HOUR cfg) (SCHEDULER_MINUTE cfg) (SCHEDULER_TIMEZONE cfg) of
          Some (Exception e) \<Rightarrow> (Inr False, sch, [])
        | Some (BaseException b) \<Rightarrow> (Inl (BaseException b), sch, [])
        | None \<Rightarrow>
           (let ev = Job_registered (SCHEDULER_HOUR cfg) (SCHEDULER_MINUTE cfg) (SCHEDULER_TIMEZONE cfg)
            in case start_background lib of
                 Some (Exception e) \<Rightarrow> (Inr False, sch\<lparr>job_registered := True\<rparr>, [ev])
               | Some (BaseException b) \<Rightarrow>
                   (Inl (BaseException b), sch\<lparr>job_registered := True\<rparr>, [ev])
               | None \<Rightarrow>
                  (Inr True, sch\<lparr>job_registered := True, aps_started := True, is_running := True\<rparr>,
                   [ev, Scheduler_started])))"

text \<open>
  The surroundings of \<open>run_scheduler\<close> and \<open>run_once\<close>: whether the constructor of the
  coordinator raises, the \<open>overall\<close> entry of the health report, and after how many sleeps
  of the waiting loop the keyboard interrupt arrives (None: never).
\<close>

record surroundings =
  coordinator_init :: "exn option"
  health_overall :: bool
  interrupt_after :: "nat option"

text \<open>The loop \<open>while True: time.sleep(60)\<close>, left by the interrupt after \<open>n\<close> sleeps.\<close>

fun sleep_loop :: "nat \<Rightarrow> event list" where
  "sleep_loop 0 = []"
| "sleep_loop (Suc n) = Slept # sleep_loop n"

text \<open>
  \<open>run_scheduler\<close>.  The result is None when the waiting loop is never interrupted; the
  events are then those before the loop.  The handler of the function is
  \<open>except Exception\<close>.
\<close>

definition run_scheduler ::
    "config \<Rightarrow> surroundings \<Rightarrow> apscheduler \<Rightarrow> (exn + bool) option \<times> event list" where
  "run_scheduler cfg env lib =
     (case validate_config cfg of
        (False, out) \<Rightarrow>
          (Some (Inr False),
           map Printed (out @ [''Configuration validation failed. Please check your .env file.'']))
      | (True, out) \<Rightarrow>
         (case coordinator_init env of
            Some (Exception e) \<Rightarrow> (Some (Inr False), map Printed out)
          | Some (BaseException b) \<Rightarrow> (Some (Inl (BaseException b)), map Printed out)
          | None \<Rightarrow>
             (if \<not> health_overall env
              then (Some (Inr False), map Printed out @ [Coordinator_created, Health_checked])
              else
                case start lib cfg new_scheduler of
                  (Inr True, sch, evs) \<Rightarrow>
                    (case interrupt_after env of
                       None \<Rightarrow> (None, map Printed out @ [Coordinator_created, Health_checked] @ evs)
                     | Some n \<Rightarrow>
                        (Some (Inr True),
                         map Printed out @ [Coordinator_created, Health_checked] @ evs
                         @ sleep_loop n @ [Scheduler_stopped]))
                | (Inr False, sch, evs) \<Rightarrow>
                    (Some (Inr False), map Printed out @ [Coordinator_created, Health_checked] @ evs)
                | (Inl (Exception e), sch, evs) \<Rightarrow>
                    (Some (Inr False), map Printed out @ [Coordinator_created, Health_checked] @ evs)
                | (Inl (BaseException b), sch, evs) \<Rightarrow>
                    (Some (Inl (BaseException b)),
                     map Printed out @ [Coordinator_created, Health_checked] @ evs))))"

text \<open>\<open>run_once\<close>: one batch, run at once.\<close>

definition run_once ::
    "config \<Rightarrow> surroundings \<Rightarrow> agents \<Rightarrow> database \<Rightarrow> (exn + bool) \<times> event list \<times> database" where
  "run_once cfg env ag db =
     (case validate_config cfg of
        (False, out) \<Rightarrow>
          (Inr False,
           map Printed (out @ [''Configuration validation failed. Please check your .env file.'']),
           db)
      | (True, out) \<Rightarrow>
         (case coordinator_init env of
            Some (Exception e) \<Rightarrow> (Inr False, map Printed out, db)
          | Some (BaseException b) \<Rightarrow> (Inl (BaseException b), map Printed out, db)
          | None \<Rightarrow>
             (case process_daily_emails ag db of
                (Inr result, db') \<Rightarrow>
                  (Inr (0 < emails_sent result \<or> total_users result = 0),
                   map Printed out @ [Coordinator_created, Batch_run], db')
              | (Inl (Exception e), db') \<Rightarrow>
                  (Inr False, map Printed out @ [Coordinator_created, Batch_run], db')
              | (Inl (BaseException b), db') \<Rightarrow>
                  (Inl (BaseException b), map Printed out @ [Coordinator_created, Batch_run], db'))))"

text \<open>The events that the configuration check has to prevent.\<close>

fun starts_work :: "event \<Rightarrow> bool" where
  "starts_work (Job_registered h m tz) = True"
| "starts_work Scheduler_started = True"
| "starts_work Batch_run = True"
| "starts_work _ = False"

section \<open>Example data\<close>

text \<open>
  A problems file with three problems, one of each difficulty, and agents that always
  succeed; the fetch method is the one of \<open>FetchAgent\<close> over that file, the mail method the
  one of \<open>MailAgent\<close> over a given SMTP client.
\<close>

definition sample_problems :: "problem list" where
  "sample_problems =
     [\<lparr>pid = 0, title = ''Two Sum'', description = ''Find two numbers'', difficulty = ''easy''\<rparr>,
      \<lparr>pid = 0, title = ''Three Sum'', description = ''Find three numbers'', difficulty = ''medium''\<rparr>,
      \<lparr>pid = 0, title = ''Median'', description = ''Median of two arrays'', difficulty = ''hard''\<rparr>]"

definition working_smtp :: mail_agent where
  "working_smtp = \<lparr>smtp = True, smtp_send = (\<lambda>u p s. Inr ())\<rparr>"

definition broken_smtp :: mail_agent where
  "broken_smtp = \<lparr>smtp = True, smtp_send = (\<lambda>u p s. Inl (Exception ''connection refused''))\<rparr>"

definition agents_over :: "mail_agent \<Rightarrow> agents" where
  "agents_over m =
     \<lparr>sql_random = (\<lambda>u diff. 0),
      get_problem_by_difficulty = FetchAgent_get_problem_by_difficulty sample_problems,
      get_all_problems = Inr sample_problems,
      generate_solution =
        (\<lambda>p lang. Inr (Some \<lparr>sol_problem_id = pid p, sol_language = lang,
                               solution_code = ''pass'', sol_explanation = ''trivial'',
                               sol_time_complexity = ''O(1)'', sol_space_complexity = ''O(1)'',
                               humor_comments = []\<rparr>)),
      add_humor_to_solution = (\<lambda>s. Inr s),
      send_daily_problem = MailAgent_send_daily_problem m,
      send_welcome_email = (\<lambda>u. Inr True),
      send_unsubscribe_confirmation = (\<lambda>em. Inr True)\<rparr>"

text \<open>Agents whose solver fails on every problem of medium difficulty, by returning None.\<close>

definition agents_medium_unsolved :: agents where
  "agents_medium_unsolved =
     (agents_over working_smtp)
       \<lparr>generate_solution :=
          (\<lambda>p lang. if difficulty p = ''medium'' then Inr None
                     else generate_solution (agents_over working_smtp) p lang)\<rparr>"

text \<open>The same, with the solver raising an \<open>Exception\<close> instead.\<close>

definition agents_medium_raises :: agents where
  "agents_medium_raises =
     (agents_over working_smtp)
       \<lparr>generate_solution :=
          (\<lambda>p lang. if difficulty p = ''medium'' then Inl (Exception ''rate limit'')
                     else generate_solution (agents_over working_smtp) p lang)\<rparr>"

text \<open>The same, with the solver left by a keyboard interrupt.\<close>

definition agents_medium_interrupted :: agents where
  "agents_medium_interrupted =
     (agents_over working_smtp)
       \<lparr>generate_solution :=
          (\<lambda>p lang. if difficulty p = ''medium'' then Inl (BaseException ''KeyboardInterrupt'')
                     else generate_solution (agents_over working_smtp) p lang)\<rparr>"

text \<open>A store with the three problems and three active subscribers, one per difficulty.\<close>

definition three_subscribers :: database where
  "three_subscribers =
     run_ops
       [(agents_over working_smtp, Initialize_sample_data),
        (agents_over working_smtp, Add_user ''ann@example.org'' ''python'' ''easy''),
        (agents_over working_smtp, Add_user ''bob@example.org'' ''java'' ''medium''),
        (agents_over working_smtp, Add_user ''eve@example.org'' ''rust'' ''hard'')]
       empty_database"

text \<open>A store whose only subscriber has unsubscribed.\<close>

definition one_unsubscribed :: database where
  "one_unsubscribed =
     run_ops
       [(agents_over working_smtp, Add_user ''ann@example.org'' ''python'' ''easy''),
        (agents_over working_smtp, Remove_user ''ann@example.org'')]
       empty_database"

text \<open>The store of three subscribers after a batch in which every delivery failed.\<close>

definition after_failed_batch :: database where
  "after_failed_batch = snd (process_daily_emails (agents_over broken_smtp) three_subscribers)"

text \<open>The store of three subscribers after a batch in which every delivery succeeded.\<close>

definition after_first_batch :: database where
  "after_first_batch = snd (process_daily_emails (agents_over working_smtp) three_subscribers)"

text \<open>The first two of the three subscribers, and the problems of their difficulties.\<close>

definition ann :: user where
  "ann = \<lparr>uid = 1, email = ''ann@example.org'', preferred_language = ''python'',
           preferred_difficulty = ''easy'', is_active = True\<rparr>"

definition bob :: user where
  "bob = \<lparr>uid = 2, email = ''bob@example.org'', preferred_language = ''java'',
           preferred_difficulty = ''medium'', is_active = True\<rparr>"

definition two_sum :: problem where
  "two_sum = \<lparr>pid = 1, title = ''Two Sum'', description = ''Find two numbers'',
               difficulty = ''easy''\<rparr>"

definition three_sum :: problem where
  "three_sum = \<lparr>pid = 2, title = ''Three Sum'', description = ''Find three numbers'',
                 difficulty = ''medium''\<rparr>"


text \<open>No row with the address is active.\<close>

definition inactive_at :: "string \<Rightarrow> database \<Rightarrow> bool" where
  "inactive_at em db = (\<forall>v \<in> set (users db). email v = em \<longrightarrow> \<not> is_active v)"

text \<open>A configuration without the key of the generation API, and a complete one.\<close>

definition config_without_key :: config where
  "config_without_key =
     \<lparr>GROQ_API_KEY = [], EMAIL_ADDRESS = ''agent@example.org'', EMAIL_PASSWORD = ''secret'',
      SCHEDULER_HOUR = 9, SCHEDULER_MINUTE = 0, SCHEDULER_TIMEZONE = ''UTC''\<rparr>"

definition complete_config :: config where
  "complete_config = config_without_key\<lparr>GROQ_API_KEY := ''gsk''\<rparr>"

definition healthy :: surroundings where
  "healthy = \<lparr>coordinator_init = None, health_overall = True, interrupt_after = Some 2\<rparr>"

definition working_apscheduler :: apscheduler where
  "working_apscheduler = \<lparr>add_job = (\<lambda>h m tz. None), start_background = None\<rparr>"

text \<open>A job function that raises an \<open>Exception\<close>, and one that is left by \<open>SystemExit\<close>.\<close>

definition locked_job :: "database \<Rightarrow> (exn + batch_result) \<times> database" where
  "locked_job db = (Inl (Exception ''database is locked''), db)"

definition exiting_job :: "database \<Rightarrow> (exn + batch_result) \<times> database" where
  "exiting_job db = (Inl (BaseException ''SystemExit''), db)"

text \<open>A response without section headers that holds a fenced block, and one that holds none.\<close>

definition unstructured_response :: string where
  "unstructured_response = ''  I think:\<newline>```python\<newline>x = 1\<newline>```\<newline>it works  ''"

definition plain_response :: string where
  "plain_response = ''Sorry, no idea.\<newline>''"

section \<open>Properties\<close>

subsection \<open>What the operations leave alone\<close>

lemma ledger_db_add_user:
  "problems (snd (db_add_user db em lang diff)) = problems db \<and>
   sent_problems (snd (db_add_user db em lang diff)) = sent_problems db"
  by (simp add: db_add_user_def Let_def)

lemma ledger_db_update:
  "problems (snd (db_update_user_preferences db em lang diff)) = problems db \<and>
   sent_problems (snd (db_update_user_preferences db em lang diff)) = sent_problems db"
  by (simp add: db_update_user_preferences_def)

lemma ledger_deactivate:
  "problems (snd (deactivate_user db em)) = problems db \<and>
   sent_problems (snd (deactivate_user db em)) = sent_problems db"
  by (simp add: deactivate_user_def)

lemma snd_send_welcome: "snd (send_welcome ag u db) = db"
  by (simp add: send_welcome_def split: sum.splits exn.splits)

lemma add_user_store_cases:
  "snd (add_user ag db em lang diff) = db \<or>
   snd (add_user ag db em lang diff) = snd (db_update_user_preferences db em (Some lang) (Some diff)) \<or>
   snd (add_user ag db em lang diff) =
     snd (deactivate_user (snd (db_update_user_preferences db em (Some lang) (Some diff))) em) \<or>
   snd (add_user ag db em lang diff) = snd (db_add_user db em lang diff)"
  unfolding add_user_def Let_def
  by (auto simp: snd_send_welcome split: option.splits prod.splits bool.splits)

lemma ledger_add_user:
  "problems (snd (add_user ag db em lang diff)) = problems db \<and>
   sent_problems (snd (add_user ag db em lang diff)) = sent_problems db"
  using add_user_store_cases [of ag db em lang diff]
  by (elim disjE) (simp_all add: ledger_db_add_user ledger_db_update ledger_deactivate)

lemma remove_user_store_cases:
  "snd (remove_user ag db em) = db \<or> snd (remove_user ag db em) = snd (deactivate_user db em)"
  unfolding remove_user_def
  by (auto split: option.splits prod.splits bool.splits sum.splits exn.splits)

lemma ledger_remove_user:
  "problems (snd (remove_user ag db em)) = problems db \<and>
   sent_problems (snd (remove_user ag db em)) = sent_problems db"
  using remove_user_store_cases [of ag db em]
  by (elim disjE) (simp_all add: ledger_deactivate)

lemma ledger_update_user_preferences:
  "problems (snd (update_user_preferences db em lang diff)) = problems db \<and>
   sent_problems (snd (update_user_preferences db em lang diff)) = sent_problems db"
  unfolding update_user_preferences_def
  by (simp add: ledger_db_update split: option.splits)

lemma problems_mark: "problems (snd (mark_problem_sent db u p lang status)) = problems db"
  by (simp add: mark_problem_sent_def Let_def)

lemma sent_problems_add_problem: "sent_problems (snd (add_problem db p)) = sent_problems db"
  by (simp add: add_problem_def Let_def)

subsection \<open>What every operation keeps\<close>

text \<open>
  A property of the two tables \<open>problems\<close> and \<open>sent_problems\<close> that every upsert and every
  insertion of a problem keeps is kept by every operation.
\<close>

lemma get_and_store_keeps:
  assumes addp: "\<And>d x. P (problems d) (sent_problems d) \<Longrightarrow>
                   P (problems (snd (add_problem d x))) (sent_problems (snd (add_problem d x)))"
    and P: "P (problems db) (sent_problems db)"
  shows "P (problems (snd (get_and_store_new_problem ag diff db)))
           (sent_problems (snd (get_and_store_new_problem ag diff db)))"
  unfolding get_and_store_new_problem_def
  using P addp [OF P] by (simp split: sum.splits exn.splits option.splits)

lemma select_problem_keeps:
  assumes addp: "\<And>d x. P (problems d) (sent_problems d) \<Longrightarrow>
                   P (problems (snd (add_problem d x))) (sent_problems (snd (add_problem d x)))"
    and P: "P (problems db) (sent_problems db)"
  shows "P (problems (snd (select_problem ag u db))) (sent_problems (snd (select_problem ag u db)))"
  unfolding select_problem_def
  using P get_and_store_keeps [of P db, OF addp P] by (simp split: option.splits)

lemma solve_and_send_keeps:
  assumes mark: "\<And>d a b l s. P (problems d) (sent_problems d) \<Longrightarrow>
                   P (problems (snd (mark_problem_sent d a b l s)))
                     (sent_problems (snd (mark_problem_sent d a b l s)))"
    and P: "P (problems db) (sent_problems db)"
  shows "P (problems (snd (solve_and_send ag u p db))) (sent_problems (snd (solve_and_send ag u p db)))"
  unfolding solve_and_send_def
  using P mark [OF P] by (simp split: sum.splits option.splits bool.splits)

lemma process_user_email_try_keeps:
  assumes mark: "\<And>d a b l s. P (problems d) (sent_problems d) \<Longrightarrow>
                   P (problems (snd (mark_problem_sent d a b l s)))
                     (sent_problems (snd (mark_problem_sent d a b l s)))"
    and addp: "\<And>d x. P (problems d) (sent_problems d) \<Longrightarrow>
                   P (problems (snd (add_problem d x))) (sent_problems (snd (add_problem d x)))"
    and P: "P (problems db) (sent_problems db)"
  shows "P (problems (snd (process_user_email_try ag u db)))
           (sent_problems (snd (process_user_email_try ag u db)))"
proof -
  obtain r db1 where r: "select_problem ag u db = (r, db1)" by (cases "select_problem ag u db")
  have P1: "P (problems db1) (sent_problems db1)"
    using select_problem_keeps [of P db ag u, OF addp P] r by simp
  show ?thesis
    unfolding process_user_email_try_def r
    using P1 solve_and_send_keeps [of P db1, OF mark P1]
    by (simp split: sum.splits option.splits)
qed

lemma process_user_email_keeps:
  assumes mark: "\<And>d a b l s. P (problems d) (sent_problems d) \<Longrightarrow>
                   P (problems (snd (mark_problem_sent d a b l s)))
                     (sent_problems (snd (mark_problem_sent d a b l s)))"
    and addp: "\<And>d x. P (problems d) (sent_problems d) \<Longrightarrow>
                   P (problems (snd (add_problem d x))) (sent_problems (snd (add_problem d x)))"
    and P: "P (problems db) (sent_problems db)"
  shows "P (problems (snd (process_user_email ag u db)))
           (sent_problems (snd (process_user_email ag u db)))"
  using process_user_email_try_keeps [of P db ag u, OF mark addp P]
  unfolding process_user_email_def
  by (auto split: prod.splits sum.splits exn.splits)

lemma process_users_keeps:
  assumes mark: "\<And>d a b l s. P (problems d) (sent_problems d) \<Longrightarrow>
                   P (problems (snd (mark_problem_sent d a b l s)))
                     (sent_problems (snd (mark_problem_sent d a b l s)))"
    and addp: "\<And>d x. P (problems d) (sent_problems d) \<Longrightarrow>
                   P (problems (snd (add_problem d x))) (sent_problems (snd (add_problem d x)))"
  shows "P (problems db) (sent_problems db) \<Longrightarrow>
         P (problems (snd (snd (process_users ag us res db))))
           (sent_problems (snd (snd (process_users ag us res db))))"
proof (induction us arbitrary: res db)
  case Nil
  then show ?case by simp
next
  case (Cons u us)
  obtain r db1 where r: "process_user_email ag u db = (r, db1)"
    by (cases "process_user_email ag u db")
  have "P (problems db1) (sent_problems db1)"
    using process_user_email_keeps [of P db ag u, OF mark addp Cons.prems] r by simp
  then show ?case
    using Cons.IH r by (auto split: sum.splits bool.splits exn.splits)
qed

lemma process_daily_emails_keeps:
  assumes mark: "\<And>d a b l s. P (problems d) (sent_problems d) \<Longrightarrow>
                   P (problems (snd (mark_problem_sent d a b l s)))
                     (sent_problems (snd (mark_problem_sent d a b l s)))"
    and addp: "\<And>d x. P (problems d) (sent_problems d) \<Longrightarrow>
                   P (problems (snd (add_problem d x))) (sent_problems (snd (add_problem d x)))"
    and P: "P (problems db) (sent_problems db)"
  shows "P (problems (snd (process_daily_emails ag db)))
           (sent_problems (snd (process_daily_emails ag db)))"
proof -
  let ?r = "process_users ag (get_active_users db)
              \<lparr>total_users = length (get_active_users db), emails_sent = 0, emails_failed = 0,
                 errors = []\<rparr> db"
  have "P (problems (snd (snd ?r))) (sent_problems (snd (snd ?r)))"
    using process_users_keeps [of P db, OF mark addp P] .
  then show ?thesis
    unfolding process_daily_emails_def Let_def
    using P by (auto split: prod.splits option.splits exn.splits)
qed

lemma add_problems_keeps:
  assumes addp: "\<And>d x. P (problems d) (sent_problems d) \<Longrightarrow>
                   P (problems (snd (add_problem d x))) (sent_problems (snd (add_problem d x)))"
  shows "P (problems db) (sent_problems db) \<Longrightarrow>
         P (problems (snd (add_problems ps n db))) (sent_problems (snd (add_problems ps n db)))"
proof (induction ps arbitrary: n db)
  case Nil
  then show ?case by simp
next
  case (Cons p ps)
  obtain r db1 where r: "add_problem db p = (r, db1)" by (cases "add_problem db p")
  have "P (problems db1) (sent_problems db1)"
    using addp [OF Cons.prems, of p] r by simp
  with Cons.IH r show ?case by (cases r) simp_all
qed

lemma initialize_keeps:
  assumes addp: "\<And>d x. P (problems d) (sent_problems d) \<Longrightarrow>
                   P (problems (snd (add_problem d x))) (sent_problems (snd (add_problem d x)))"
    and P: "P (problems db) (sent_problems db)"
  shows "P (problems (snd (initialize_sample_data ag db)))
           (sent_problems (snd (initialize_sample_data ag db)))"
  unfolding initialize_sample_data_def
  using P add_problems_keeps [of P db, OF addp P]
  by (simp split: sum.splits exn.splits)

lemma apply_op_keeps:
  assumes mark: "\<And>d a b l s. P (problems d) (sent_problems d) \<Longrightarrow>
                   P (problems (snd (mark_problem_sent d a b l s)))
                     (sent_problems (snd (mark_problem_sent d a b l s)))"
    and addp: "\<And>d x. P (problems d) (sent_problems d) \<Longrightarrow>
                   P (problems (snd (add_problem d x))) (sent_problems (snd (add_problem d x)))"
    and P: "P (problems db) (sent_problems db)"
  shows "P (problems (apply_op ag op db)) (sent_problems (apply_op ag op db))"
proof (cases op)
  case (Db_mark_problem_sent a b l s)
  then show ?thesis using mark [OF P] by simp
next
  case (Db_add_problem x)
  then show ?thesis using addp [OF P] by simp
next
  case Process_daily_emails
  then show ?thesis using process_daily_emails_keeps [of P db, OF mark addp P] by simp
next
  case Initialize_sample_data
  then show ?thesis using initialize_keeps [of P db, OF addp P] by simp
qed (simp_all add: P ledger_db_add_user ledger_db_update ledger_deactivate
       ledger_add_user ledger_remove_user ledger_update_user_preferences)

lemma run_ops_keeps:
  assumes mark: "\<And>d a b l s. P (problems d) (sent_problems d) \<Longrightarrow>
                   P (problems (snd (mark_problem_sent d a b l s)))
                     (sent_problems (snd (mark_problem_sent d a b l s)))"
    and addp: "\<And>d x. P (problems d) (sent_problems d) \<Longrightarrow>
                   P (problems (snd (add_problem d x))) (sent_problems (snd (add_problem d x)))"
  shows "P (problems db) (sent_problems db) \<Longrightarrow>
         P (problems (run_ops ops db)) (sent_problems (run_ops ops db))"
proof (induction ops arbitrary: db)
  case Nil
  then show ?case by simp
next
  case (Cons x ops)
  obtain ag op where x: "x = (ag, op)" by (cases x)
  have "P (problems (apply_op ag op db)) (sent_problems (apply_op ag op db))"
    using apply_op_keeps [of P db, OF mark addp Cons.prems] .
  then show ?case using Cons.IH x by simp
qed

subsection \<open>The upsert\<close>

lemma fst_mark: "fst (mark_problem_sent db u p lang status) = insert_accepted db u p"
  by (simp add: mark_problem_sent_def Let_def)

lemma mark_rejected:
  "\<not> insert_accepted db u p \<Longrightarrow> mark_problem_sent db u p lang status = (False, db)"
  by (simp add: mark_problem_sent_def)

lemma sent_problems_mark:
  "insert_accepted db u p \<Longrightarrow>
   sent_problems (snd (mark_problem_sent db u p lang status)) =
     filter (\<lambda>sp. \<not> (user_id sp = u \<and> problem_id sp = p)) (sent_problems db)
     @ [\<lparr>sp_id = next_rowid (sent_problems_seq db) (map sp_id (sent_problems db)),
         user_id = u, problem_id = p, email_status = status, solution_language = lang\<rparr>]"
  by (simp add: mark_problem_sent_def Let_def)

lemma mark_keeps_distinct:
  assumes "distinct (map (\<lambda>sp. (user_id sp, problem_id sp)) (sent_problems d))"
  shows "distinct (map (\<lambda>sp. (user_id sp, problem_id sp)) (sent_problems (snd (mark_problem_sent d a b l s))))"
proof (cases "insert_accepted d a b")
  case True
  with assms show ?thesis by (auto simp: sent_problems_mark distinct_map_filter)
next
  case False
  with assms show ?thesis by (simp add: mark_rejected)
qed

lemma mark_keeps_pair:
  assumes "(u, p) \<in> set (map (\<lambda>sp. (user_id sp, problem_id sp)) (sent_problems d))"
  shows "(u, p) \<in> set (map (\<lambda>sp. (user_id sp, problem_id sp)) (sent_problems (snd (mark_problem_sent d a b l s))))"
proof (cases "insert_accepted d a b")
  case True
  with assms show ?thesis by (auto simp: sent_problems_mark)
next
  case False
  with assms show ?thesis by (simp add: mark_rejected)
qed

lemma pair_after_mark:
  "insert_accepted db u p \<Longrightarrow> (u, p) \<in> set (ledger_pairs (snd (mark_problem_sent db u p lang status)))"
  by (simp add: ledger_pairs_def sent_problems_mark)

lemma records_for_mark:
  "insert_accepted db u p \<Longrightarrow>
   records_for (snd (mark_problem_sent db u p lang status)) u p =
     [\<lparr>sp_id = next_rowid (sent_problems_seq db) (map sp_id (sent_problems db)),
       user_id = u, problem_id = p, email_status = status, solution_language = lang\<rparr>]"
  by (simp add: records_for_def sent_problems_mark)

lemma filter_key_le1:
  "distinct (map f xs) \<Longrightarrow> length (filter (\<lambda>x. f x = k) xs) \<le> 1"
proof (induction xs)
  case Nil
  show ?case by simp
next
  case (Cons x xs)
  show ?case
  proof (cases "f x = k")
    case True
    with Cons.prems have "\<forall>y \<in> set xs. f y \<noteq> k" by (auto simp: image_iff)
    then have "filter (\<lambda>y. f y = k) xs = []" by (simp add: filter_empty_conv)
    with True show ?thesis by simp
  next
    case False
    with Cons show ?thesis by simp
  qed
qed

lemma length_mark_existing:
  assumes inv: "one_record_per_pair db" and ex: "records_for db u p \<noteq> []"
    and ok: "insert_accepted db u p"
  shows "length (sent_problems (snd (mark_problem_sent db u p lang status))) = length (sent_problems db)"
proof -
  let ?hit = "\<lambda>sp. (user_id sp, problem_id sp) = (u, p)"
  have le: "length (filter ?hit (sent_problems db)) \<le> 1"
    using inv filter_key_le1 [of "\<lambda>sp. (user_id sp, problem_id sp)" "sent_problems db" "(u, p)"]
    by (simp add: one_record_per_pair_def ledger_pairs_def)
  have "filter ?hit (sent_problems db) \<noteq> []"
    using ex by (simp add: records_for_def)
  then have "0 < length (filter ?hit (sent_problems db))" by simp
  with le have one: "length (filter ?hit (sent_problems db)) = 1" by linarith
  have "length (filter ?hit (sent_problems db)) + length (filter (\<lambda>sp. \<not> ?hit sp) (sent_problems db))
          = length (sent_problems db)"
    by (rule sum_length_filter_compl)
  with one show ?thesis by (simp add: sent_problems_mark [OF ok])
qed

lemma run_ops_inv:
  "one_record_per_pair db \<Longrightarrow> one_record_per_pair (run_ops ops db)"
  unfolding one_record_per_pair_def ledger_pairs_def
  by (rule run_ops_keeps [where P = "\<lambda>ps sps. distinct (map (\<lambda>sp. (user_id sp, problem_id sp)) sps)"])
     (simp_all add: mark_keeps_distinct sent_problems_add_problem)

lemma run_ops_pair:
  "(u, p) \<in> set (ledger_pairs db) \<Longrightarrow> (u, p) \<in> set (ledger_pairs (run_ops ops db))"
  unfolding ledger_pairs_def
  by (rule run_ops_keeps [where P = "\<lambda>ps sps. (u, p) \<in> set (map (\<lambda>sp. (user_id sp, problem_id sp)) sps)"])
     (simp_all add: mark_keeps_pair sent_problems_add_problem del: set_map)

subsection \<open>Selection from the store\<close>

lemma unsent_candidates_iff:
  "q \<in> set (unsent_candidates db u diff) \<longleftrightarrow>
     q \<in> set (problems db) \<and> difficulty q = diff \<and>
     (\<forall>sp \<in> set (sent_problems db). user_id sp = u \<longrightarrow> problem_id sp \<noteq> pid q)"
  unfolding unsent_candidates_def sent_ids_def
  by (auto simp: image_iff)

lemma get_unsent_Some_candidate:
  assumes "get_unsent_problem_for_user db u diff rnd = Some p"
  shows "p \<in> set (unsent_candidates db u diff)"
proof -
  let ?cs = "unsent_candidates db u diff"
  from assms have ne: "?cs \<noteq> []" and p: "p = ?cs ! (rnd mod length ?cs)"
    by (auto simp: get_unsent_problem_for_user_def split: list.splits if_splits)
  from ne have "rnd mod length ?cs < length ?cs" by simp
  with p show ?thesis using nth_mem by metis
qed

lemma get_unsent_None_iff:
  "sqlite_int u \<Longrightarrow>
   get_unsent_problem_for_user db u diff rnd = None \<longleftrightarrow> unsent_candidates db u diff = []"
  by (simp add: get_unsent_problem_for_user_def split: list.splits)

lemma get_unsent_out_of_range:
  "\<not> sqlite_int u \<Longrightarrow> get_unsent_problem_for_user db u diff rnd = None"
  by (simp add: get_unsent_problem_for_user_def)

lemma recorded_never_selected:
  assumes "(u, p) \<in> set (ledger_pairs db)"
    and "get_unsent_problem_for_user db u diff rnd = Some q"
  shows "pid q \<noteq> p"
proof -
  from assms(1) obtain sp where sp: "sp \<in> set (sent_problems db)" "user_id sp = u" "problem_id sp = p"
    by (auto simp: ledger_pairs_def)
  from get_unsent_Some_candidate [OF assms(2)] have "q \<in> set (unsent_candidates db u diff)" .
  with sp show ?thesis by (auto simp: unsent_candidates_iff)
qed

subsection \<open>The claims about the ledger\<close>

text \<open>
  Claim C1.  In a store where no two rows of \<open>sent_problems\<close> hold the same
  (user_id, problem_id) pair, this stays so after any history of operations, batch runs
  included, and after \<open>mark_problem_sent\<close>.  \<open>mark_problem_sent\<close> returns True exactly when
  both ids and the key of the new row are SQLite integers; then the pair has exactly one
  row afterwards, carrying the new status, and when the pair had a row before, the table
  has as many rows as before.  When it returns False the store is as it was.
\<close>

theorem C1_one_record_per_pair:
  "one_record_per_pair db \<Longrightarrow>
     one_record_per_pair (run_ops ops db) \<and>
     one_record_per_pair (snd (mark_problem_sent db u p lang status)) \<and>
     fst (mark_problem_sent db u p lang status)
       = (sqlite_int u \<and> sqlite_int p \<and>
          sqlite_int (next_rowid (sent_problems_seq db) (map sp_id (sent_problems db)))) \<and>
     (fst (mark_problem_sent db u p lang status) \<longrightarrow>
        map email_status (records_for (snd (mark_problem_sent db u p lang status)) u p) = [status] \<and>
        (records_for db u p \<noteq> [] \<longrightarrow>
           length (sent_problems (snd (mark_problem_sent db u p lang status)))
             = length (sent_problems db))) \<and>
     (\<not> fst (mark_problem_sent db u p lang status) \<longrightarrow>
        snd (mark_problem_sent db u p lang status) = db)"
proof -
  assume inv: "one_record_per_pair db"
  have a: "one_record_per_pair (run_ops ops db)" using inv by (rule run_ops_inv)
  have b: "one_record_per_pair (snd (mark_problem_sent db u p lang status))"
    using inv mark_keeps_distinct [of db u p lang status]
    by (simp add: one_record_per_pair_def ledger_pairs_def)
  have c: "fst (mark_problem_sent db u p lang status)
       = (sqlite_int u \<and> sqlite_int p \<and>
          sqlite_int (next_rowid (sent_problems_seq db) (map sp_id (sent_problems db))))"
    by (simp add: fst_mark insert_accepted_def)
  have d: "fst (mark_problem_sent db u p lang status) \<Longrightarrow>
        map email_status (records_for (snd (mark_problem_sent db u p lang status)) u p) = [status]"
    by (simp add: fst_mark records_for_mark)
  have e: "fst (mark_problem_sent db u p lang status) \<Longrightarrow> records_for db u p \<noteq> [] \<Longrightarrow>
           length (sent_problems (snd (mark_problem_sent db u p lang status)))
             = length (sent_problems db)"
    using length_mark_existing [OF inv] by (simp add: fst_mark)
  have f: "\<not> fst (mark_problem_sent db u p lang status) \<Longrightarrow>
        snd (mark_problem_sent db u p lang status) = db"
    by (simp add: fst_mark mark_rejected)
  from a b c d e f show ?thesis by blast
qed

theorem C1_one_record_per_pair_witness:
  "one_record_per_pair after_failed_batch \<and>
   map email_status (records_for after_failed_batch 1 1) = [''failed''] \<and>
   one_record_per_pair
     (run_ops [(agents_over working_smtp, Process_daily_emails),
               (agents_over broken_smtp, Process_daily_emails),
               (agents_over working_smtp, Db_mark_problem_sent 1 1 ''python'' ''sent'')]
        after_failed_batch) \<and>
   fst (mark_problem_sent after_failed_batch 1 1 ''python'' ''sent'') \<and>
   map email_status
     (records_for (snd (mark_problem_sent after_failed_batch 1 1 ''python'' ''sent'')) 1 1) = [''sent''] \<and>
   length (sent_problems (snd (mark_problem_sent after_failed_batch 1 1 ''python'' ''sent''))) = 3 \<and>
   \<not> fst (mark_problem_sent after_failed_batch (2 ^ 63) 1 ''python'' ''sent'') \<and>
   snd (mark_problem_sent after_failed_batch (2 ^ 63) 1 ''python'' ''sent'') = after_failed_batch"
proof -
  have inv: "one_record_per_pair after_failed_batch" by code_simp
  have old: "map email_status (records_for after_failed_batch 1 1) = [''failed'']" by code_simp
  then have ex: "records_for after_failed_batch 1 1 \<noteq> []" by auto
  have len: "length (sent_problems after_failed_batch) = 3" by code_simp
  have ok: "fst (mark_problem_sent after_failed_batch 1 1 ''python'' ''sent'')" by code_simp
  have no: "\<not> fst (mark_problem_sent after_failed_batch (2 ^ 63) 1 ''python'' ''sent'')" by code_simp
  show ?thesis
    using C1_one_record_per_pair [OF inv,
        of "[(agents_over working_smtp, Process_daily_emails),
             (agents_over broken_smtp, Process_daily_emails),
             (agents_over working_smtp, Db_mark_problem_sent 1 1 ''python'' ''sent'')]"
           1 1 "''python''" "''sent''"]
      C1_one_record_per_pair [OF inv, of "[]" "2 ^ 63" 1 "''python''" "''sent''"]
      inv old ex len ok no
    by simp
qed

text \<open>
  Claim C4.  Whatever the random number, \<open>get_unsent_problem_for_user\<close> returns only a
  stored problem of the requested difficulty whose id is in no row of \<open>sent_problems\<close> for
  the user.  For a user id that is an SQLite integer, as the id of every stored
  subscriber is, it returns None exactly when the store has no such problem; for any other
  id the query raises and None is returned.
\<close>

theorem C4_select_unseen:
  "(get_unsent_problem_for_user db u diff rnd = Some p \<longrightarrow>
      p \<in> set (problems db) \<and> difficulty p = diff \<and>
      (\<forall>sp \<in> set (sent_problems db). user_id sp = u \<longrightarrow> problem_id sp \<noteq> pid p)) \<and>
   (sqlite_int u \<longrightarrow>
      (get_unsent_problem_for_user db u diff rnd = None \<longleftrightarrow>
         \<not> (\<exists>q \<in> set (problems db). difficulty q = diff \<and>
               (\<forall>sp \<in> set (sent_problems db). user_id sp = u \<longrightarrow> problem_id sp \<noteq> pid q)))) \<and>
   (\<not> sqlite_int u \<longrightarrow> get_unsent_problem_for_user db u diff rnd = None)"
proof -
  let ?cs = "unsent_candidates db u diff"
  have empty: "?cs = [] \<longleftrightarrow> \<not> (\<exists>q. q \<in> set ?cs)"
    by (cases ?cs) auto
  show ?thesis
    using get_unsent_Some_candidate [of db u diff rnd p] unsent_candidates_iff [of _ db u diff]
      get_unsent_None_iff [of u db diff rnd] get_unsent_out_of_range [of u db diff rnd] empty
    by blast
qed

theorem C4_select_unseen_witness:
  "sqlite_int 2 \<and>
   get_unsent_problem_for_user three_subscribers 2 ''medium'' 7 = Some three_sum \<and>
   three_sum \<in> set (problems three_subscribers) \<and>
   get_unsent_problem_for_user after_failed_batch 2 ''medium'' 7 = None \<and>
   \<not> (\<exists>q \<in> set (problems after_failed_batch). difficulty q = ''medium'' \<and>
         (\<forall>sp \<in> set (sent_problems after_failed_batch). user_id sp = 2 \<longrightarrow> problem_id sp \<noteq> pid q)) \<and>
   get_unsent_problem_for_user three_subscribers (2 ^ 63) ''medium'' 7 = None"
proof -
  have r: "sqlite_int 2" by code_simp
  have o: "\<not> sqlite_int (2 ^ 63)" by code_simp
  have a: "get_unsent_problem_for_user three_subscribers 2 ''medium'' 7 = Some three_sum"
    by code_simp
  have b: "get_unsent_problem_for_user after_failed_batch 2 ''medium'' 7 = None"
    by code_simp
  show ?thesis
    using r o a b
      C4_select_unseen [of three_subscribers 2 "''medium''" 7 three_sum]
      C4_select_unseen [of after_failed_batch 2 "''medium''" 7]
      C4_select_unseen [of three_subscribers "2 ^ 63" "''medium''" 7]
    by blast
qed

subsection \<open>Statistics\<close>

lemma count_list_app: "count_list (xs @ ys) d = count_list xs d + count_list ys d"
  by (induction xs) simp_all

lemma count_list_map_filter:
  "count_list (map g (filter R ys)) d = length (filter (\<lambda>y. R y \<and> g y = d) ys)"
  by (induction ys) simp_all

lemma count_join:
  "count_list (concat (map (\<lambda>sp. map difficulty (filter (\<lambda>p. pid p = problem_id sp) ps))
                           (filter R sps))) d
     = length (filter (\<lambda>(sp, p). R sp \<and> pid p = problem_id sp \<and> difficulty p = d)
                      (List.product sps ps))"
proof (induction sps)
  case Nil
  show ?case by simp
next
  case (Cons a sps)
  have row: "length (filter (\<lambda>(sp, p). R sp \<and> pid p = problem_id sp \<and> difficulty p = d)
                       (map (Pair a) ps))
               = (if R a then length (filter (\<lambda>p. pid p = problem_id a \<and> difficulty p = d) ps) else 0)"
    by (simp add: filter_map comp_def)
  show ?case
    using Cons.IH row by (simp add: count_list_app count_list_map_filter)
qed

lemma by_difficulty_value:
  assumes "sqlite_int u"
  shows "by_difficulty (db_get_user_stats db u) d =
           (let n = length (filter (\<lambda>(sp, p). user_id sp = u \<and> email_status sp = ''sent'' \<and>
                                              pid p = problem_id sp \<and> difficulty p = d)
                                   (List.product (sent_problems db) (problems db)))
            in if n = 0 then None else Some n)"
proof -
  have "count_list (joined_difficulties db u) d
          = length (filter (\<lambda>(sp, p). (user_id sp = u \<and> email_status sp = ''sent'') \<and>
                                       pid p = problem_id sp \<and> difficulty p = d)
                           (List.product (sent_problems db) (problems db)))"
    unfolding joined_difficulties_def sent_rows_def by (rule count_join)
  then show ?thesis
    using assms by (simp add: db_get_user_stats_def Let_def conj_assoc)
qed

lemma stats_only_sent_rows:
  "db_get_user_stats (db\<lparr>sent_problems := filter (\<lambda>sp. email_status sp = ''sent'') (sent_problems db)\<rparr>) u
     = db_get_user_stats db u"
proof -
  have "sent_rows (db\<lparr>sent_problems := filter (\<lambda>sp. email_status sp = ''sent'') (sent_problems db)\<rparr>) u
          = sent_rows db u"
    unfolding sent_rows_def by (auto intro: filter_cong)
  then show ?thesis
    by (simp add: db_get_user_stats_def joined_difficulties_def)
qed

lemma stats_after_failed_mark:
  assumes "records_for db u p = []"
  shows "db_get_user_stats (snd (mark_problem_sent db u p lang ''failed'')) v = db_get_user_stats db v"
proof (cases "insert_accepted db u p")
  case True
  from assms have "\<forall>sp \<in> set (sent_problems db). \<not> (user_id sp = u \<and> problem_id sp = p)"
    by (simp add: records_for_def filter_empty_conv)
  then have "filter (\<lambda>sp. \<not> (user_id sp = u \<and> problem_id sp = p)) (sent_problems db) = sent_problems db"
    by (simp add: filter_id_conv)
  then have "sent_rows (snd (mark_problem_sent db u p lang ''failed'')) v = sent_rows db v"
    by (simp add: sent_rows_def sent_problems_mark [OF True])
  then show ?thesis
    by (simp add: db_get_user_stats_def joined_difficulties_def problems_mark)
next
  case False
  then show ?thesis by (simp add: mark_rejected)
qed

text \<open>
  Claim C10.  For a user id that is an SQLite integer, \<open>total_sent\<close> is the number of the
  user's rows with status \<open>sent\<close>, and \<open>by_difficulty\<close> gives for each difficulty the number
  of pairs of such a row and a problem with the row's problem id and that difficulty, the
  difficulty being no key when there is no such pair; rows with another status change
  nothing in the result.  Selection from the store excludes the problem of every row of
  the user, whatever its status.  Hence marking a pair that had no row as \<open>failed\<close>, when
  the write is accepted, leaves the statistics as they were, while the problem is never
  selected for the user again, in any later state of the store.
\<close>

theorem C10_stats_count_sent_only:
  "(sqlite_int u \<longrightarrow>
      total_sent (db_get_user_stats db u)
        = length (filter (\<lambda>sp. user_id sp = u \<and> email_status sp = ''sent'') (sent_problems db)) \<and>
      by_difficulty (db_get_user_stats db u) d =
        (let n = length (filter (\<lambda>(sp, p). user_id sp = u \<and> email_status sp = ''sent'' \<and>
                                           pid p = problem_id sp \<and> difficulty p = d)
                                (List.product (sent_problems db) (problems db)))
         in if n = 0 then None else Some n)) \<and>
   db_get_user_stats db u
     = db_get_user_stats (db\<lparr>sent_problems := filter (\<lambda>sp. email_status sp = ''sent'') (sent_problems db)\<rparr>) u \<and>
   (\<forall>sp \<in> set (sent_problems db). user_id sp = u \<longrightarrow>
      (\<forall>diff rnd q. get_unsent_problem_for_user db u diff rnd = Some q \<longrightarrow> pid q \<noteq> problem_id sp)) \<and>
   (records_for db u p = [] \<and> fst (mark_problem_sent db u p lang ''failed'') \<longrightarrow>
      map email_status (records_for (snd (mark_problem_sent db u p lang ''failed'')) u p) = [''failed''] \<and>
      db_get_user_stats (snd (mark_problem_sent db u p lang ''failed'')) u = db_get_user_stats db u \<and>
      (\<forall>ops diff rnd q.
          get_unsent_problem_for_user (run_ops ops (snd (mark_problem_sent db u p lang ''failed''))) u diff rnd
            = Some q \<longrightarrow> pid q \<noteq> p))"
proof -
  have a1: "sqlite_int u \<Longrightarrow> total_sent (db_get_user_stats db u)
        = length (filter (\<lambda>sp. user_id sp = u \<and> email_status sp = ''sent'') (sent_problems db))"
    by (simp add: db_get_user_stats_def sent_rows_def)
  note a2 = by_difficulty_value [of u db d]
  have b: "db_get_user_stats db u
     = db_get_user_stats (db\<lparr>sent_problems := filter (\<lambda>sp. email_status sp = ''sent'') (sent_problems db)\<rparr>) u"
    by (simp add: stats_only_sent_rows)
  have c: "\<forall>sp \<in> set (sent_problems db). user_id sp = u \<longrightarrow>
      (\<forall>diff rnd q. get_unsent_problem_for_user db u diff rnd = Some q \<longrightarrow> pid q \<noteq> problem_id sp)"
  proof (intro ballI impI allI)
    fix sp diff rnd q
    assume sp: "sp \<in> set (sent_problems db)" "user_id sp = u"
      and q: "get_unsent_problem_for_user db u diff rnd = Some q"
    from sp have "(u, problem_id sp) \<in> set (ledger_pairs db)"
      by (auto simp: ledger_pairs_def)
    then show "pid q \<noteq> problem_id sp" using q by (rule recorded_never_selected)
  qed
  have d1: "fst (mark_problem_sent db u p lang ''failed'') \<Longrightarrow>
      map email_status (records_for (snd (mark_problem_sent db u p lang ''failed'')) u p) = [''failed'']"
    by (simp add: fst_mark records_for_mark)
  have d2: "fst (mark_problem_sent db u p lang ''failed'') \<Longrightarrow> \<forall>ops diff rnd q.
          get_unsent_problem_for_user (run_ops ops (snd (mark_problem_sent db u p lang ''failed''))) u diff rnd
            = Some q \<longrightarrow> pid q \<noteq> p"
  proof (intro allI impI)
    fix ops diff rnd q
    assume ok: "fst (mark_problem_sent db u p lang ''failed'')"
      and q: "get_unsent_problem_for_user (run_ops ops (snd (mark_problem_sent db u p lang ''failed''))) u diff rnd = Some q"
    from ok have acc: "insert_accepted db u p" by (simp add: fst_mark)
    have "(u, p) \<in> set (ledger_pairs (run_ops ops (snd (mark_problem_sent db u p lang ''failed''))))"
      by (rule run_ops_pair) (rule pair_after_mark [OF acc])
    then show "pid q \<noteq> p" using q by (rule recorded_never_selected)
  qed
  from a1 a2 b c d1 d2 stats_after_failed_mark [of db u p lang u] show ?thesis by blast
qed

theorem C10_stats_count_sent_only_witness:
  "sqlite_int 1 \<and>
   total_sent (db_get_user_stats after_first_batch 1) = 1 \<and>
   map (by_difficulty (db_get_user_stats after_first_batch 1)) [''easy'', ''medium'', ''hard'']
     = [Some 1, None, None] \<and>
   total_sent (db_get_user_stats after_failed_batch 1) = 0 \<and>
   map (by_difficulty (db_get_user_stats after_failed_batch 1)) [''easy'', ''medium'', ''hard'']
     = [None, None, None] \<and>
   records_for three_subscribers 1 1 = [] \<and>
   fst (mark_problem_sent three_subscribers 1 1 ''python'' ''failed'') \<and>
   db_get_user_stats (snd (mark_problem_sent three_subscribers 1 1 ''python'' ''failed'')) 1
     = db_get_user_stats three_subscribers 1 \<and>
   get_unsent_problem_for_user three_subscribers 1 ''easy'' 0 = Some two_sum \<and>
   get_unsent_problem_for_user
     (snd (mark_problem_sent three_subscribers 1 1 ''python'' ''failed'')) 1 ''easy'' 0 = None"
proof -
  have r: "sqlite_int 1" by code_simp
  have t1: "length (filter (\<lambda>sp. user_id sp = 1 \<and> email_status sp = ''sent'')
                      (sent_problems after_first_batch)) = 1"
    by code_simp
  have t0: "length (filter (\<lambda>sp. user_id sp = 1 \<and> email_status sp = ''sent'')
                      (sent_problems after_failed_batch)) = 0"
    by code_simp
  have b1: "map (by_difficulty (db_get_user_stats after_first_batch 1)) [''easy'', ''medium'', ''hard'']
     = [Some 1, None, None]"
    by code_simp
  have b0: "map (by_difficulty (db_get_user_stats after_failed_batch 1)) [''easy'', ''medium'', ''hard'']
     = [None, None, None]"
    by code_simp
  have e: "records_for three_subscribers 1 1 = []" by code_simp
  have ok: "fst (mark_problem_sent three_subscribers 1 1 ''python'' ''failed'')" by code_simp
  have s: "get_unsent_problem_for_user three_subscribers 1 ''easy'' 0 = Some two_sum"
    by code_simp
  have n: "get_unsent_problem_for_user
     (snd (mark_problem_sent three_subscribers 1 1 ''python'' ''failed'')) 1 ''easy'' 0 = None"
    by code_simp
  from C10_stats_count_sent_only [of 1 after_first_batch] r
  have "total_sent (db_get_user_stats after_first_batch 1)
          = length (filter (\<lambda>sp. user_id sp = 1 \<and> email_status sp = ''sent'')
                      (sent_problems after_first_batch))"
    by blast
  with t1 have c1: "total_sent (db_get_user_stats after_first_batch 1) = 1" by simp
  from C10_stats_count_sent_only [of 1 after_failed_batch] r
  have "total_sent (db_get_user_stats after_failed_batch 1)
          = length (filter (\<lambda>sp. user_id sp = 1 \<and> email_status sp = ''sent'')
                      (sent_problems after_failed_batch))"
    by blast
  with t0 have c0: "total_sent (db_get_user_stats after_failed_batch 1) = 0" by simp
  from C10_stats_count_sent_only [of 1 three_subscribers _ 1 "''python''"] e ok
  have "db_get_user_stats (snd (mark_problem_sent three_subscribers 1 1 ''python'' ''failed'')) 1
     = db_get_user_stats three_subscribers 1"
    by blast
  with r c1 c0 b1 b0 e ok s n show ?thesis by simp
qed

subsection \<open>Delivery and later selection\<close>
















subsection \<open>Failures inside a batch\<close>

text \<open>
  Claim C3 fails on the code.  With three active subscribers and a solver that fails for
  the second one only, by returning None or by raising an \<open>Exception\<close>, the batch goes
  on and reports 2 sent and 1 failed, but its error list is empty: the exception is
  turned into the result False inside \<open>_process_user_email\<close>, so the handler of the loop
  that appends the message is not entered.  (A keyboard interrupt in the solver is caught
  by none of the handlers and ends the batch after the first subscriber.)
\<close>

theorem C3_error_list_stays_empty:
  "fst (process_daily_emails agents_medium_unsolved three_subscribers)
     = Inr \<lparr>total_users = 3, emails_sent = 2, emails_failed = 1, errors = []\<rparr> \<and>
   fst (process_user_email_try agents_medium_raises bob three_subscribers)
     = Inl (Exception ''rate limit'') \<and>
   fst (process_user_email agents_medium_raises bob three_subscribers) = Inr False \<and>
   fst (process_daily_emails agents_medium_raises three_subscribers)
     = Inr \<lparr>total_users = 3, emails_sent = 2, emails_failed = 1, errors = []\<rparr> \<and>
   map user_id (sent_problems (snd (process_daily_emails agents_medium_raises three_subscribers)))
     = [1, 3] \<and>
   fst (process_daily_emails agents_medium_interrupted three_subscribers)
     = Inl (BaseException ''KeyboardInterrupt'') \<and>
   map user_id (sent_problems (snd (process_daily_emails agents_medium_interrupted three_subscribers)))
     = [1]"
  by code_simp

subsection \<open>The scheduler boundary\<close>

lemma run_daily_job_Exception:
  assumes "job_function w = (Inl (Exception e), w')"
  shows "run_daily_job job_function sch w =
           (Inr \<lparr>total_users = 0, emails_sent = 0, emails_failed = 0, errors = [e],
                  job_status = ''failed'', error = Some e\<rparr>,
            sch\<lparr>last_run_result :=
                  Some \<lparr>total_users = 0, emails_sent = 0, emails_failed = 0, errors = [e],
                         job_status = ''failed'', error = Some e\<rparr>\<rparr>,
            w')"
  using assms by (simp add: run_daily_job_def Let_def)

lemma run_daily_job_BaseException:
  assumes "job_function w = (Inl (BaseException b), w')"
  shows "run_daily_job job_function sch w = (Inl (BaseException b), sch, w')"
  using assms by (simp add: run_daily_job_def)

text \<open>
  Claim C7, as stated, fails.  A job function left by \<open>SystemExit\<close> is not caught: the
  exception leaves \<open>_run_daily_job\<close>, no result is returned and \<open>last_run_result\<close> stays
  None.
\<close>

theorem C7_counterexample:
  "fst (run_daily_job exiting_job new_scheduler three_subscribers) = Inl (BaseException ''SystemExit'') \<and>
   last_run_result (fst (snd (run_daily_job exiting_job new_scheduler three_subscribers))) = None"
  by (simp add: run_daily_job_def exiting_job_def new_scheduler_def)

text \<open>
  Claim C7, amended.  When the job function raises an instance of \<open>Exception\<close>,
  \<open>_run_daily_job\<close> returns a result with \<open>job_status\<close> \<open>failed\<close> that carries the message
  of the exception under \<open>error\<close> and in \<open>errors\<close>, and stores the same result as
  \<open>last_run_result\<close>; \<open>run_now\<close> is the same call.  What lies outside \<open>Exception\<close> leaves
  the method, and the scheduler object is as before.
\<close>

theorem C7_job_failure_is_caught:
  "(job_function w = (Inl (Exception e), w') \<longrightarrow>
      fst (run_daily_job job_function sch w)
        = Inr \<lparr>total_users = 0, emails_sent = 0, emails_failed = 0, errors = [e],
                 job_status = ''failed'', error = Some e\<rparr> \<and>
      last_run_result (fst (snd (run_daily_job job_function sch w)))
        = Some \<lparr>total_users = 0, emails_sent = 0, emails_failed = 0, errors = [e],
                  job_status = ''failed'', error = Some e\<rparr> \<and>
      run_now job_function sch w = run_daily_job job_function sch w) \<and>
   (job_function w = (Inl (BaseException b), w') \<longrightarrow>
      run_daily_job job_function sch w = (Inl (BaseException b), sch, w'))"
  using run_daily_job_Exception [of job_function w e w' sch]
    run_daily_job_BaseException [of job_function w b w' sch]
  by (auto simp: run_now_def)

theorem C7_job_failure_is_caught_witness:
  "locked_job three_subscribers = (Inl (Exception ''database is locked''), three_subscribers) \<and>
   fst (run_daily_job locked_job new_scheduler three_subscribers)
     = Inr \<lparr>total_users = 0, emails_sent = 0, emails_failed = 0, errors = [''database is locked''],
              job_status = ''failed'', error = Some ''database is locked''\<rparr> \<and>
   last_run_result (fst (snd (run_daily_job locked_job new_scheduler three_subscribers)))
     = Some \<lparr>total_users = 0, emails_sent = 0, emails_failed = 0, errors = [''database is locked''],
               job_status = ''failed'', error = Some ''database is locked''\<rparr> \<and>
   exiting_job three_subscribers = (Inl (BaseException ''SystemExit''), three_subscribers) \<and>
   run_daily_job exiting_job new_scheduler three_subscribers
     = (Inl (BaseException ''SystemExit''), new_scheduler, three_subscribers) \<and>
   fst (run_daily_job (process_daily_emails (agents_over working_smtp)) new_scheduler three_subscribers)
     = Inr \<lparr>total_users = 3, emails_sent = 3, emails_failed = 0, errors = [],
              job_status = ''completed'', error = None\<rparr>"
proof -
  have raised: "locked_job three_subscribers = (Inl (Exception ''database is locked''), three_subscribers)"
    by (simp add: locked_job_def)
  have left: "exiting_job three_subscribers = (Inl (BaseException ''SystemExit''), three_subscribers)"
    by (simp add: exiting_job_def)
  have completed:
    "fst (run_daily_job (process_daily_emails (agents_over working_smtp)) new_scheduler three_subscribers)
       = Inr \<lparr>total_users = 3, emails_sent = 3, emails_failed = 0, errors = [],
                job_status = ''completed'', error = None\<rparr>"
    by code_simp
  from C7_job_failure_is_caught
         [where job_function = locked_job and w = three_subscribers and w' = three_subscribers
            and e = "''database is locked''" and sch = new_scheduler]
       C7_job_failure_is_caught
         [where job_function = exiting_job and w = three_subscribers and w' = three_subscribers
            and b = "''SystemExit''" and sch = new_scheduler]
       raised left completed
  show ?thesis by simp
qed

subsection \<open>Subscribing again\<close>

lemma find_email_unique:
  assumes d: "distinct (map email us)" and f: "find (\<lambda>u. email u = em) us = Some u"
    and v: "v \<in> set us" "email v = em"
  shows "v = u"
proof -
  from f have "u \<in> set us" "email u = em"
    by (auto simp: find_Some_iff)
  with d v show ?thesis
    by (metis distinct_map inj_on_eq_iff)
qed

lemma inactive_at_update:
  "inactive_at em db \<Longrightarrow> inactive_at em (snd (db_update_user_preferences db em' lang diff))"
  by (auto simp: inactive_at_def db_update_user_preferences_def)

lemma inactive_at_deactivate:
  "inactive_at em db \<Longrightarrow> inactive_at em (snd (deactivate_user db em'))"
  by (auto simp: inactive_at_def deactivate_user_def)

lemma emails_update:
  "map email (users (snd (db_update_user_preferences db em lang diff))) = map email (users db)"
  by (auto simp: db_update_user_preferences_def)

lemma emails_deactivate:
  "map email (users (snd (deactivate_user db em))) = map email (users db)"
  by (auto simp: deactivate_user_def)

lemma add_user_existing_cases:
  assumes "get_user_by_email db em = Some u" "\<not> is_active u"
  shows "snd (add_user ag db em lang diff) = db \<or>
         snd (add_user ag db em lang diff) = snd (db_update_user_preferences db em (Some lang) (Some diff)) \<or>
         snd (add_user ag db em lang diff) =
           snd (deactivate_user (snd (db_update_user_preferences db em (Some lang) (Some diff))) em)"
  using assms unfolding add_user_def Let_def
  by (auto simp: snd_send_welcome split: prod.splits bool.splits option.splits)


text \<open>
  Claim C2 fails on the code.  In a store with unique addresses, \<open>add_user\<close> called for an
  address whose row is inactive never activates it: on the path meant to reactivate, the
  preferences are updated and then \<open>deactivate_user\<close> is called, so the address is still
  missing from \<open>get_active_users\<close> although the method returns True.  No second row is
  added.
\<close>

theorem C2_resubscribe_leaves_inactive:
  assumes "distinct (map email (users db))"
    and "get_user_by_email db em = Some u"
    and "\<not> is_active u"
  shows "em \<notin> set (map email (get_active_users (snd (add_user ag db em lang diff)))) \<and>
         map email (users (snd (add_user ag db em lang diff))) = map email (users db)"
proof -
  have start: "inactive_at em db"
    unfolding inactive_at_def
  proof (intro ballI impI)
    fix v assume v: "v \<in> set (users db)" "email v = em"
    from assms(2) have "find (\<lambda>u. email u = em) (users db) = Some u"
      by (simp add: get_user_by_email_def)
    from find_email_unique [OF assms(1) this v] assms(3) show "\<not> is_active v" by simp
  qed
  let ?db1 = "snd (db_update_user_preferences db em (Some lang) (Some diff))"
  let ?db2 = "snd (deactivate_user ?db1 em)"
  have i1: "inactive_at em ?db1" using start by (rule inactive_at_update)
  have i2: "inactive_at em ?db2" using i1 by (rule inactive_at_deactivate)
  have e1: "map email (users ?db1) = map email (users db)" by (rule emails_update)
  have e2: "map email (users ?db2) = map email (users db)"
    using emails_deactivate [of ?db1 em] e1 by simp
  from add_user_existing_cases [OF assms(2,3), of ag lang diff] start i1 i2 e1 e2
  have "inactive_at em (snd (add_user ag db em lang diff)) \<and>
        map email (users (snd (add_user ag db em lang diff))) = map email (users db)"
    by (elim disjE) simp_all
  then show ?thesis
    by (auto simp: inactive_at_def get_active_users_def)
qed

theorem C2_resubscribe_leaves_inactive_witness:
  "get_user_by_email one_unsubscribed ''ann@example.org''
     = Some \<lparr>uid = 1, email = ''ann@example.org'', preferred_language = ''python'',
              preferred_difficulty = ''easy'', is_active = False\<rparr> \<and>
   fst (add_user (agents_over working_smtp) one_unsubscribed ''ann@example.org'' ''java'' ''hard'') = Inr True \<and>
   ''ann@example.org'' \<notin> set (map email (get_active_users
      (snd (add_user (agents_over working_smtp) one_unsubscribed ''ann@example.org'' ''java'' ''hard'')))) \<and>
   get_active_users
      (snd (add_user (agents_over working_smtp) one_unsubscribed ''ann@example.org'' ''java'' ''hard'')) = []"
proof -
  have d: "distinct (map email (users one_unsubscribed))" by code_simp
  have g: "get_user_by_email one_unsubscribed ''ann@example.org''
     = Some \<lparr>uid = 1, email = ''ann@example.org'', preferred_language = ''python'',
              preferred_difficulty = ''easy'', is_active = False\<rparr>"
    by code_simp
  have r: "fst (add_user (agents_over working_smtp) one_unsubscribed ''ann@example.org'' ''java'' ''hard'') = Inr True"
    by code_simp
  have a: "get_active_users
      (snd (add_user (agents_over working_smtp) one_unsubscribed ''ann@example.org'' ''java'' ''hard'')) = []"
    by code_simp
  from C2_resubscribe_leaves_inactive [OF d g, of "agents_over working_smtp" "''java''" "''hard''"]
  have "''ann@example.org'' \<notin> set (map email (get_active_users
      (snd (add_user (agents_over working_smtp) one_unsubscribed ''ann@example.org'' ''java'' ''hard''))))"
    by simp
  with g r a show ?thesis by simp
qed


subsection \<open>The configuration gate\<close>

lemma validate_config_missing:
  assumes "GROQ_API_KEY cfg = [] \<or> EMAIL_ADDRESS cfg = [] \<or> EMAIL_PASSWORD cfg = []"
  shows "validate_config cfg =
           (False,
            [''Missing required configuration:'']
            @ (if GROQ_API_KEY cfg = [] then [''  - GROQ_API_KEY''] else [])
            @ (if EMAIL_ADDRESS cfg = [] then [''  - EMAIL_ADDRESS''] else [])
            @ (if EMAIL_PASSWORD cfg = [] then [''  - EMAIL_PASSWORD''] else []))"
  using assms by (auto simp: validate_config_def Let_def)

lemma printed_no_work: "\<not> list_ex starts_work (map Printed out)"
  by (induction out) simp_all

text \<open>
  Claim C6.  When the API key, the mail address or the mail password is empty,
  \<open>validate_config\<close> returns False and prints the name of exactly each missing field;
  \<open>run_scheduler\<close> then returns False without registering the job, starting the scheduler
  or running a batch, and \<open>run_once\<close> returns False without running a batch and leaves the
  store as it was.
\<close>

theorem C6_config_gate:
  assumes "GROQ_API_KEY cfg = [] \<or> EMAIL_ADDRESS cfg = [] \<or> EMAIL_PASSWORD cfg = []"
  shows "fst (validate_config cfg) = False \<and>
         (''  - GROQ_API_KEY'' \<in> set (snd (validate_config cfg)) \<longleftrightarrow> GROQ_API_KEY cfg = []) \<and>
         (''  - EMAIL_ADDRESS'' \<in> set (snd (validate_config cfg)) \<longleftrightarrow> EMAIL_ADDRESS cfg = []) \<and>
         (''  - EMAIL_PASSWORD'' \<in> set (snd (validate_config cfg)) \<longleftrightarrow> EMAIL_PASSWORD cfg = []) \<and>
         fst (run_scheduler cfg env lib) = Some (Inr False) \<and>
         \<not> list_ex starts_work (snd (run_scheduler cfg env lib)) \<and>
         fst (run_once cfg env ag db) = Inr False \<and>
         \<not> list_ex starts_work (fst (snd (run_once cfg env ag db))) \<and>
         snd (snd (run_once cfg env ag db)) = db"
proof -
  note v = validate_config_missing [OF assms]
  have a: "fst (validate_config cfg) = False" by (simp add: v)
  have b: "(''  - GROQ_API_KEY'' \<in> set (snd (validate_config cfg)) \<longleftrightarrow> GROQ_API_KEY cfg = [])"
    by (simp add: v)
  have c: "(''  - EMAIL_ADDRESS'' \<in> set (snd (validate_config cfg)) \<longleftrightarrow> EMAIL_ADDRESS cfg = [])"
    by (simp add: v)
  have d: "(''  - EMAIL_PASSWORD'' \<in> set (snd (validate_config cfg)) \<longleftrightarrow> EMAIL_PASSWORD cfg = [])"
    by (simp add: v)
  have e: "fst (run_scheduler cfg env lib) = Some (Inr False)"
    by (simp add: run_scheduler_def v)
  have f: "\<not> list_ex starts_work (snd (run_scheduler cfg env lib))"
    unfolding run_scheduler_def v by (simp only: prod.case bool.case snd_conv printed_no_work) simp
  have g: "fst (run_once cfg env ag db) = Inr False"
    by (simp add: run_once_def v)
  have h: "\<not> list_ex starts_work (fst (snd (run_once cfg env ag db)))"
    unfolding run_once_def v by (simp only: prod.case bool.case snd_conv fst_conv printed_no_work) simp
  have i: "snd (snd (run_once cfg env ag db)) = db"
    by (simp add: run_once_def v)
  from a b c d e f g h i show ?thesis by blast
qed

theorem C6_config_gate_witness:
  "GROQ_API_KEY config_without_key = [] \<and>
   validate_config config_without_key
     = (False, [''Missing required configuration:'', ''  - GROQ_API_KEY'']) \<and>
   fst (run_scheduler config_without_key healthy working_apscheduler) = Some (Inr False) \<and>
   \<not> list_ex starts_work (snd (run_scheduler config_without_key healthy working_apscheduler)) \<and>
   list_ex starts_work (snd (run_scheduler complete_config healthy working_apscheduler))"
proof -
  have k: "GROQ_API_KEY config_without_key = []" by (simp add: config_without_key_def)
  have v: "validate_config config_without_key
     = (False, [''Missing required configuration:'', ''  - GROQ_API_KEY''])"
    by code_simp
  have w: "list_ex starts_work (snd (run_scheduler complete_config healthy working_apscheduler))"
    by code_simp
  from C6_config_gate [of config_without_key healthy working_apscheduler
                          "agents_over working_smtp" three_subscribers] k v w
  show ?thesis by simp
qed


subsection \<open>The response parser\<close>

lemma parse_line_no_header:
  "\<not> is_header line \<Longrightarrow> parse_line language (res, None, []) line = (res, None, [])"
  by (simp add: parse_line_def is_header_def Let_def)

lemma parse_lines_no_header:
  "\<forall>line \<in> set ls. \<not> is_header line \<Longrightarrow> parse_lines language ls (res, None, []) = (res, None, [])"
  by (induction ls) (simp_all add: parse_line_no_header)

lemma parse_no_header:
  assumes "\<forall>line \<in> set (split_lines content). \<not> is_header line"
  shows "parse_solution_response content language =
           \<lparr>code = extract_code_block content language, explanation = strip content,
            time_complexity = [], space_complexity = [], approach = []\<rparr>"
  using parse_lines_no_header [OF assms, of language empty_sections]
  by (simp add: parse_solution_response_def Let_def empty_sections_def)

lemma lower_char_backquote: "lower_char c = CHR 0x60 \<Longrightarrow> c = CHR 0x60"
proof -
  assume a: "lower_char c = CHR 0x60"
  let ?n = "of_char c :: nat"
  have lt: "?n < 256" by simp
  show ?thesis
  proof (cases "(65 \<le> ?n \<and> ?n \<le> 90) \<or> (192 \<le> ?n \<and> ?n \<le> 222 \<and> ?n \<noteq> 215)")
    case True
    with a have "char_of (?n + 32) = CHR 0x60" by (simp add: lower_char_def Let_def)
    then have "of_char (char_of (?n + 32) :: char) = (of_char (CHR 0x60) :: nat)" by simp
    then have "(?n + 32) mod 256 = 96" by simp
    moreover from True have "?n + 32 < 256" by linarith
    ultimately have "?n + 32 = 96" by (simp only: mod_less)
    with True have False by linarith
    then show ?thesis ..
  next
    case False
    with a show ?thesis by (simp add: lower_char_def Let_def)
  qed
qed


lemma lower_backquotes: "lower xs = lower ''```'' \<Longrightarrow> xs = ''```''"
proof -
  assume a: "lower xs = lower ''```''"
  have k: "lower ''```'' = ''```''" by code_simp
  from a k have m: "map lower_char xs = ''```''" by (simp only: lower_def)
  then obtain a b c where abc: "xs = [a, b, c]"
    by (auto simp: map_eq_Cons_conv)
  with m have "lower_char a = CHR 0x60" "lower_char b = CHR 0x60" "lower_char c = CHR 0x60" by simp_all
  then have "a = CHR 0x60" "b = CHR 0x60" "c = CHR 0x60" by (simp_all add: lower_char_backquote)
  with abc show ?thesis by simp
qed

lemma lower_prefix:
  assumes "lower (take (length (k @ l)) s) = lower (k @ l)"
  shows "lower (take (length k) s) = lower k"
proof -
  from assms have "take (length k) (lower (take (length (k @ l)) s)) = take (length k) (lower (k @ l))"
    by simp
  then show ?thesis by (simp add: lower_def take_map min_def)
qed

lemma exact_prefix:
  assumes "take (length (k @ l)) s = k @ l"
  shows "take (length k) s = k"
proof -
  from assms have "take (length k) (take (length (k @ l)) s) = take (length k) (k @ l)" by simp
  then show ?thesis by (simp add: min_def)
qed

lemma match_here_prefix:
  assumes inj: "\<And>xs. lower xs = lower k \<Longrightarrow> xs = k"
    and m: "match_here ic (k @ l) s = Some g"
  shows "take (length k) s = k"
proof (cases ic)
  case True
  with m have "lower (take (length (k @ l)) s) = lower (k @ l)"
    by (simp add: match_here_def split: if_splits)
  then have "lower (take (length k) s) = lower k" by (rule lower_prefix)
  then show ?thesis by (rule inj)
next
  case False
  with m have "take (length (k @ l)) s = k @ l"
    by (simp add: match_here_def split: if_splits)
  then show ?thesis by (rule exact_prefix)
qed

lemma find_sub_None_head: "find_sub n s = None \<Longrightarrow> take (length n) s \<noteq> n"
  by (cases s) (auto split: if_splits)

lemma find_sub_None_tail: "find_sub n (c # cs) = None \<Longrightarrow> find_sub n cs = None"
  by (auto split: if_splits)

lemma search_none:
  assumes inj: "\<And>xs. lower xs = lower k \<Longrightarrow> xs = k"
  shows "find_sub k s = None \<Longrightarrow> search ic (k @ l) s = None"
proof (induction s)
  case Nil
  have "match_here ic (k @ l) [] = None"
  proof (cases "match_here ic (k @ l) []")
    case None
    then show ?thesis .
  next
    case (Some g)
    from match_here_prefix [OF inj Some] find_sub_None_head [OF Nil.prems] show ?thesis by simp
  qed
  then show ?case by simp
next
  case (Cons c cs)
  have m: "match_here ic (k @ l) (c # cs) = None"
  proof (cases "match_here ic (k @ l) (c # cs)")
    case None
    then show ?thesis .
  next
    case (Some g)
    from match_here_prefix [OF inj Some] find_sub_None_head [OF Cons.prems] show ?thesis by simp
  qed
  from Cons.IH [OF find_sub_None_tail [OF Cons.prems]] m show ?case by simp
qed

lemma extract_no_backquotes:
  assumes "find_sub ''```'' content = None"
  shows "extract_code_block content language = []"
proof -
  have a: "search True (''```'' @ language) content = None"
    by (rule search_none [of "''```''", OF lower_backquotes assms])
  have "search False (''```'' @ []) content = None"
    by (rule search_none [of "''```''", OF lower_backquotes assms])
  then have b: "search False ''```'' content = None" by simp
  show ?thesis unfolding extract_code_block_def by (simp only: a b option.case)
qed


text \<open>
  Claim C9.  For a response none of whose lines is taken for a section header, and a
  language that \<open>generate_solution\<close> passes on, \<open>_parse_solution_response\<close> returns the
  dictionary whose explanation is the whole response, stripped of surrounding whitespace,
  whose code is what \<open>_extract_code_block\<close> finds in the whole response, and whose other
  fields are empty; the code is empty when the response holds no run of three
  backquotes.  The function returns for every input.
\<close>

theorem C9_unstructured_response:
  assumes "\<forall>line \<in> set (split_lines content). \<not> is_header line"
    and "lower language \<in> set SUPPORTED_LANGUAGES"
  shows "parse_solution_response content language =
           \<lparr>code = extract_code_block content language, explanation = strip content,
            time_complexity = [], space_complexity = [], approach = []\<rparr> \<and>
         (find_sub ''```'' content = None \<longrightarrow> code (parse_solution_response content language) = [])"
proof -
  have a: "parse_solution_response content language =
           \<lparr>code = extract_code_block content language, explanation = strip content,
            time_complexity = [], space_complexity = [], approach = []\<rparr>"
    using assms(1) by (rule parse_no_header)
  have "find_sub ''```'' content = None \<Longrightarrow> code (parse_solution_response content language) = []"
    by (simp only: a extract_no_backquotes) simp
  with a show ?thesis by blast
qed

theorem C9_unstructured_response_witness:
  "parse_solution_response unstructured_response ''Python'' =
     \<lparr>code = ''x = 1'',
      explanation = ''I think:\<newline>```python\<newline>x = 1\<newline>```\<newline>it works'',
      time_complexity = [], space_complexity = [], approach = []\<rparr> \<and>
   parse_solution_response plain_response ''rust'' =
     \<lparr>code = [], explanation = ''Sorry, no idea.'',
      time_complexity = [], space_complexity = [], approach = []\<rparr>"
proof -
  have h1: "\<forall>line \<in> set (split_lines unstructured_response). \<not> is_header line" by code_simp
  have l1: "lower ''Python'' \<in> set SUPPORTED_LANGUAGES" by code_simp
  have c1: "extract_code_block unstructured_response ''Python'' = ''x = 1''" by code_simp
  have e1: "strip unstructured_response = ''I think:\<newline>```python\<newline>x = 1\<newline>```\<newline>it works''"
    by code_simp
  have h2: "\<forall>line \<in> set (split_lines plain_response). \<not> is_header line" by code_simp
  have l2: "lower ''rust'' \<in> set SUPPORTED_LANGUAGES" by code_simp
  have n2: "find_sub ''```'' plain_response = None" by code_simp
  have e2: "strip plain_response = ''Sorry, no idea.''" by code_simp
  from C9_unstructured_response [OF h1 l1] c1 e1
  have a: "parse_solution_response unstructured_response ''Python'' =
     \<lparr>code = ''x = 1'',
      explanation = ''I think:\<newline>```python\<newline>x = 1\<newline>```\<newline>it works'',
      time_complexity = [], space_complexity = [], approach = []\<rparr>"
    by simp
  from C9_unstructured_response [OF h2 l2] n2
  have p: "parse_solution_response plain_response ''rust'' =
             \<lparr>code = extract_code_block plain_response ''rust'', explanation = strip plain_response,
              time_complexity = [], space_complexity = [], approach = []\<rparr>"
    and c: "code (parse_solution_response plain_response ''rust'') = []"
    by blast+
  from c have "extract_code_block plain_response ''rust'' = []" by (simp add: p)
  with p e2
  have b: "parse_solution_response plain_response ''rust'' =
     \<lparr>code = [], explanation = ''Sorry, no idea.'',
      time_complexity = [], space_complexity = [], approach = []\<rparr>"
    by simp
  from a b show ?thesis by blast
qed


end
